theory Spec2Isabelle
  imports Complex_Main
begin

section \<open>JSON records on disk and objects in memory\<close>

text \<open>
  The application keeps one directory per project. Its state lives in two JSON files,
  \<^verbatim>\<open>metadata.json\<close> (the project record) and \<^verbatim>\<open>segments.json\<close> (the segment list),
  next to the media artifacts of the stages. A parsed JSON object is a finite map from
  property names to JSON values; numbers are real numbers (no NaN, no infinities), and
  property names are ordinary names such as process identifiers.
\<close>

datatype json =
    JNull
  | JBool bool
  | JNum real
  | JStr string
  | JArr "json list"
  | JObj "string \<Rightarrow> json option"

type_synonym obj = "string \<rightharpoonup> json"

text \<open>
  A JavaScript object in memory may also hold the value \<^verbatim>\<open>undefined\<close> under a key;
  \<^verbatim>\<open>JSON.stringify\<close> leaves such keys out of the text it writes.
\<close>

datatype js = Undefined | Defined json

type_synonym jsobj = "string \<rightharpoonup> js"

definition JSON_parse :: "obj \<Rightarrow> jsobj" where
  "JSON_parse m = (\<lambda>k. map_option Defined (m k))"

definition JSON_stringify :: "jsobj \<Rightarrow> obj" where
  "JSON_stringify ob = (\<lambda>k. case ob k of Some (Defined v) \<Rightarrow> Some v | _ \<Rightarrow> None)"

text \<open>The object spread \<^verbatim>\<open>{ ...a, ...b }\<close>: the keys of \<open>b\<close> win.\<close>

definition spread :: "jsobj \<Rightarrow> jsobj \<Rightarrow> jsobj" where
  "spread a b = a ++ b"

text \<open>A file that exists either parses as JSON or makes \<^verbatim>\<open>JSON.parse\<close> throw.\<close>

datatype 'a file_content = Garbage | Json 'a

record project_dir =
  metadata_json :: "obj file_content option"
  segments_json :: "obj list file_content option"
  source_video :: bool
  source_audio :: bool
  processed_video :: bool

text \<open>The directory \<^verbatim>\<open>projects/\<close>: project identifier to project directory.\<close>

type_synonym fs = "string \<rightharpoonup> project_dir"

datatype exn = TypeError | Error string

datatype ProjectStatus =
    INITIALIZING | INITIALIZED | INITIALIZE_ERROR
  | MERGING | MERGED | MERGING_ERROR
  | DOWNLOADING | DOWNLOADED | DOWNLOAD_ERROR
  | SEGMENTING | SEGMENTED | SEGMENTING_ERROR
  | CAPTIONING | CAPTIONED | CAPTIONING_ERROR

fun status_string :: "ProjectStatus \<Rightarrow> string" where
  "status_string INITIALIZING = ''initializing''"
| "status_string INITIALIZED = ''initialized''"
| "status_string INITIALIZE_ERROR = ''initialize_error''"
| "status_string MERGING = ''merging''"
| "status_string MERGED = ''merged''"
| "status_string MERGING_ERROR = ''merging_error''"
| "status_string DOWNLOADING = ''downloading''"
| "status_string DOWNLOADED = ''downloaded''"
| "status_string DOWNLOAD_ERROR = ''download_error''"
| "status_string SEGMENTING = ''segmenting''"
| "status_string SEGMENTED = ''segmented''"
| "status_string SEGMENTING_ERROR = ''segmenting_error''"
| "status_string CAPTIONING = ''captioning''"
| "status_string CAPTIONED = ''captioned''"
| "status_string CAPTIONING_ERROR = ''captioning_error''"

section \<open>The metadata store (\<^verbatim>\<open>lib/utils/project\<close>)\<close>

definition existsSync_metadata :: "fs \<Rightarrow> string \<Rightarrow> bool" where
  "existsSync_metadata files projectId =
     (case files projectId of None \<Rightarrow> False | Some d \<Rightarrow> metadata_json d \<noteq> None)"

text \<open>Reading and parsing \<^verbatim>\<open>metadata.json\<close>; \<open>Inl\<close> is the exception of a missing or
  unparsable file.\<close>

definition read_metadata :: "fs \<Rightarrow> string \<Rightarrow> exn + jsobj" where
  "read_metadata files projectId =
     (case files projectId of
        None \<Rightarrow> Inl (Error ''ENOENT'')
      | Some d \<Rightarrow>
          (case metadata_json d of
             None \<Rightarrow> Inl (Error ''ENOENT'')
           | Some Garbage \<Rightarrow> Inl (Error ''SyntaxError'')
           | Some (Json m) \<Rightarrow> Inr (JSON_parse m)))"

definition write_metadata :: "fs \<Rightarrow> string \<Rightarrow> jsobj \<Rightarrow> fs" where
  "write_metadata files projectId ob =
     (case files projectId of
        None \<Rightarrow> files
      | Some d \<Rightarrow> files(projectId \<mapsto> d\<lparr>metadata_json := Some (Json (JSON_stringify ob))\<rparr>))"

definition getProjectMetadata :: "fs \<Rightarrow> string \<Rightarrow> jsobj option" where
  "getProjectMetadata files projectId =
     (if \<not> existsSync_metadata files projectId then None
      else case read_metadata files projectId of Inl e \<Rightarrow> None | Inr metadata \<Rightarrow> Some metadata)"

definition updateProjectMetadata :: "fs \<Rightarrow> string \<Rightarrow> jsobj \<Rightarrow> fs \<times> bool" where
  "updateProjectMetadata files projectId updates =
     (if \<not> existsSync_metadata files projectId then (files, False)
      else case read_metadata files projectId of
             Inl e \<Rightarrow> (files, False)
           | Inr metadata \<Rightarrow> (write_metadata files projectId (spread metadata updates), True))"

fun truthy :: "json \<Rightarrow> bool" where
  "truthy JNull = False"
| "truthy (JBool b) = b"
| "truthy (JNum n) = (n \<noteq> 0)"
| "truthy (JStr s) = (s \<noteq> [])"
| "truthy (JArr xs) = True"
| "truthy (JObj ob) = True"

text \<open>
  \<^verbatim>\<open>const progress = metadata.progress || {}\<close>: the stored value when it is truthy,
  otherwise a fresh empty object.
\<close>

fun progress_or_empty :: "js option \<Rightarrow> json" where
  "progress_or_empty None = JObj Map.empty"
| "progress_or_empty (Some Undefined) = JObj Map.empty"
| "progress_or_empty (Some (Defined v)) = (if truthy v then v else JObj Map.empty)"

text \<open>
  The assignment \<^verbatim>\<open>progress[processId] = progressValue\<close>. On an object it sets the
  entry. On an array an ordinary name becomes a property of the array object, which is no
  element: the assignment succeeds and \<^verbatim>\<open>JSON.stringify\<close> writes the array as it was.
  On a primitive value the assignment throws a \<^verbatim>\<open>TypeError\<close> (module code is strict).
  The interface \<^verbatim>\<open>ProjectMetadata\<close> declares \<^verbatim>\<open>progress\<close> as an optional object.
\<close>

fun assign_property :: "json \<Rightarrow> string \<Rightarrow> json \<Rightarrow> exn + json" where
  "assign_property (JObj p) k v = Inr (JObj (p(k \<mapsto> v)))"
| "assign_property (JArr xs) k v = Inr (JArr xs)"
| "assign_property JNull k v = Inl TypeError"
| "assign_property (JBool b) k v = Inl TypeError"
| "assign_property (JNum n) k v = Inl TypeError"
| "assign_property (JStr s) k v = Inl TypeError"

definition updateProjectProgress :: "fs \<Rightarrow> string \<Rightarrow> string \<Rightarrow> real \<Rightarrow> exn + fs \<times> bool" where
  "updateProjectProgress files projectId processId progressValue =
     (case getProjectMetadata files projectId of
        None \<Rightarrow> Inr (files, False)
      | Some metadata \<Rightarrow>
          (case assign_property (progress_or_empty (metadata ''progress'')) processId (JNum progressValue) of
             Inl e \<Rightarrow> Inl e
           | Inr progress \<Rightarrow>
               Inr (updateProjectMetadata files projectId [''progress'' \<mapsto> Defined progress])))"

text \<open>\<^verbatim>\<open>if (error)\<close> is false for a missing argument and for the empty string.\<close>

definition updateProjectStatus :: "fs \<Rightarrow> string \<Rightarrow> ProjectStatus \<Rightarrow> string option \<Rightarrow> fs \<times> bool" where
  "updateProjectStatus files projectId status error =
     (let updates = [''status'' \<mapsto> Defined (JStr (status_string status))];
          updates' = (case error of
                        Some e \<Rightarrow> if e \<noteq> [] then updates(''error'' \<mapsto> Defined (JStr e))
                                  else updates(''error'' \<mapsto> Undefined)
                      | None \<Rightarrow> updates(''error'' \<mapsto> Undefined))
      in updateProjectMetadata files projectId updates')"

text \<open>The record of a project, when its \<^verbatim>\<open>metadata.json\<close> exists and parses.\<close>

definition project_record :: "fs \<Rightarrow> string \<Rightarrow> obj option" where
  "project_record files projectId =
     (case files projectId of
        None \<Rightarrow> None
      | Some d \<Rightarrow> (case metadata_json d of Some (Json m) \<Rightarrow> Some m | _ \<Rightarrow> None))"

text \<open>The progress map of a record: the entries of its \<^verbatim>\<open>progress\<close> object.\<close>

definition progress_map :: "obj \<Rightarrow> obj" where
  "progress_map m = (case m ''progress'' of Some (JObj p) \<Rightarrow> p | _ \<Rightarrow> Map.empty)"

text \<open>The declared type of the \<^verbatim>\<open>progress\<close> field: absent, or an object.\<close>

definition progress_well_typed :: "obj \<Rightarrow> bool" where
  "progress_well_typed m = (case m ''progress'' of None \<Rightarrow> True | Some (JObj p) \<Rightarrow> True | Some v \<Rightarrow> \<not> truthy v)"

definition record_field :: "fs \<Rightarrow> string \<Rightarrow> string \<Rightarrow> json option" where
  "record_field files projectId f =
     (case project_record files projectId of None \<Rightarrow> None | Some m \<Rightarrow> m f)"

definition progress_entry :: "fs \<Rightarrow> string \<Rightarrow> string \<Rightarrow> json option" where
  "progress_entry files projectId processId =
     (case project_record files projectId of None \<Rightarrow> None | Some m \<Rightarrow> progress_map m processId)"

subsection \<open>A sample project directory\<close>

definition example_record :: obj where
  "example_record = [''status'' \<mapsto> JStr ''merging'', ''error'' \<mapsto> JStr ''old failure'',
                     ''progress'' \<mapsto> JObj [''a_video'' \<mapsto> JNum 40]]"

definition example_dir :: project_dir where
  "example_dir = \<lparr>metadata_json = Some (Json example_record), segments_json = None,
                   source_video = True, source_audio = False, processed_video = False\<rparr>"

definition example_fs :: fs where
  "example_fs = [''p1'' \<mapsto> example_dir]"

subsection \<open>Two calls of \<^verbatim>\<open>updateProjectProgress\<close>, file operation by file operation\<close>







section \<open>Stage-start routes: merge and split\<close>

text \<open>
  A route answers with an error body and a status code, or accepts the request and answers
  with the project and process identifiers. The process identifier comes from
  \<^verbatim>\<open>uuidv4()\<close> and is a parameter here. The background job that an accepted request
  launches is not awaited; up to its first \<^verbatim>\<open>await\<close> it touches no file.
\<close>

datatype response = ErrorResponse string nat | Accepted string string

definition POST_merge :: "fs \<Rightarrow> string \<Rightarrow> string \<Rightarrow> fs \<times> response" where
  "POST_merge files projectId processId =
     (case files projectId of
        None \<Rightarrow> (files, ErrorResponse ''Project not found'' 404)
      | Some d \<Rightarrow>
          if metadata_json d = None then (files, ErrorResponse ''Project metadata not found'' 404)
          else if \<not> source_video d \<or> \<not> source_audio d
          then (files, ErrorResponse ''Source files not found. Please run the download process first.'' 400)
          else (case read_metadata files projectId of
                  Inl e \<Rightarrow> (files, ErrorResponse ''Failed to start merge process'' 500)
                | Inr metadata \<Rightarrow>
                    (let metadata' = metadata(''status'' \<mapsto> Defined (JStr (status_string MERGING)),
                                              ''mergeProcessId'' \<mapsto> Defined (JStr processId),
                                              ''currentProcess'' \<mapsto> Defined (JStr ''merge''));
                         files1 = write_metadata files projectId metadata'
                     in case updateProjectProgress files1 projectId processId 0 of
                          Inl e \<Rightarrow> (files1, ErrorResponse ''Failed to start merge process'' 500)
                        | Inr (files2, ok) \<Rightarrow> (files2, Accepted projectId processId))))"

definition POST_split :: "fs \<Rightarrow> string \<Rightarrow> string \<Rightarrow> fs \<times> response" where
  "POST_split files projectId processId =
     (case files projectId of
        None \<Rightarrow> (files, ErrorResponse ''Project not found'' 404)
      | Some d \<Rightarrow>
          if metadata_json d = None then (files, ErrorResponse ''Project metadata not found'' 404)
          else if \<not> processed_video d
          then (files, ErrorResponse ''Processed video file not found. Please run the merge process first.'' 400)
          else (case read_metadata files projectId of
                  Inl e \<Rightarrow> (files, ErrorResponse ''Failed to start split process'' 500)
                | Inr metadata \<Rightarrow>
                    (let metadata' = metadata(''status'' \<mapsto> Defined (JStr (status_string INITIALIZING)),
                                              ''splitProcessId'' \<mapsto> Defined (JStr processId),
                                              ''currentProcess'' \<mapsto> Defined (JStr ''split''));
                         files1 = write_metadata files projectId metadata'
                     in case updateProjectProgress files1 projectId processId 0 of
                          Inl e \<Rightarrow> (files1, ErrorResponse ''Failed to start split process'' 500)
                        | Inr (files2, ok) \<Rightarrow> (files2, Accepted projectId processId))))"

section \<open>Download stage: the trim ranges handed to the two download jobs\<close>

text \<open>The four offsets that the download route stores in the record (numbers, default 0).\<close>

record trim_offsets =
  startTime :: real
  endTime :: real
  audioStartTime :: real
  audioEndTime :: real

record download_call =
  url :: string
  outputPath :: string
  call_processId :: string
  isAudioOnly :: bool
  call_startTime :: real
  call_endTime :: real

text \<open>The two calls of \<^verbatim>\<open>downloadYouTubeVideo\<close> that \<^verbatim>\<open>downloadMedia\<close> makes.\<close>

definition downloadMedia_video :: "string \<Rightarrow> string \<Rightarrow> string \<Rightarrow> trim_offsets \<Rightarrow> download_call" where
  "downloadMedia_video videoUrl videoPath processId metadata =
     \<lparr>url = videoUrl, outputPath = videoPath, call_processId = processId @ ''_video'',
      isAudioOnly = False, call_startTime = startTime metadata,
      call_endTime = (if audioEndTime metadata \<noteq> 0
                      then audioEndTime metadata - audioStartTime metadata + startTime metadata
                      else endTime metadata)\<rparr>"

definition downloadMedia_audio :: "string \<Rightarrow> string \<Rightarrow> string \<Rightarrow> trim_offsets \<Rightarrow> download_call" where
  "downloadMedia_audio audioUrl audioPath processId metadata =
     \<lparr>url = audioUrl, outputPath = audioPath, call_processId = processId @ ''_audio'',
      isAudioOnly = True, call_startTime = audioStartTime metadata,
      call_endTime = audioEndTime metadata\<rparr>"

text \<open>
  The \<^verbatim>\<open>--download-sections\<close> range that \<^verbatim>\<open>downloadYouTubeVideo\<close> builds from its two
  offsets: none when neither is positive, otherwise the start and, when positive, the end.
\<close>

definition download_sections :: "download_call \<Rightarrow> (real \<times> real option) option" where
  "download_sections c =
     (if call_endTime c > 0 \<or> call_startTime c > 0
      then Some (call_startTime c, if call_endTime c > 0 then Some (call_endTime c) else None)
      else None)"

section \<open>Probing a duration and splitting into segments\<close>

text \<open>
  \<^verbatim>\<open>fs.mkdirSync(dir, { recursive: true })\<close> for a subdirectory of the project directory:
  it creates the project directory when that is missing. The subdirectories themselves
  and the media files in them, other than the three artifacts of the record
  \<open>project_dir\<close>, are not part of the model.
\<close>

definition mkdirSync_recursive :: "fs \<Rightarrow> string \<Rightarrow> fs" where
  "mkdirSync_recursive files projectId =
     (case files projectId of
        None \<Rightarrow> files(projectId \<mapsto> \<lparr>metadata_json = None, segments_json = None, source_video = False,
                                  source_audio = False, processed_video = False\<rparr>)
      | Some d \<Rightarrow> files)"

record ffmpeg_tools =
  ffmpeg :: "string option"
  ffprobe :: "string option"

text \<open>\<^verbatim>\<open>!path\<close> for a path that is a string or \<^verbatim>\<open>null\<close>.\<close>

definition not_found :: "string option \<Rightarrow> bool" where
  "not_found p = (p = None \<or> p = Some [])"

text \<open>Numbers in template strings: the decimal digits, most significant first.\<close>

definition digit_char :: "nat \<Rightarrow> char" where
  "digit_char d = char_of (d + 48)"

fun decimal_digits :: "nat \<Rightarrow> string \<Rightarrow> string" where
  "decimal_digits n acc =
     (if n div 10 = 0 then digit_char (n mod 10) # acc
      else decimal_digits (n div 10) (digit_char (n mod 10) # acc))"

definition string_of_nat :: "nat \<Rightarrow> string" where
  "string_of_nat n = decimal_digits n []"

text \<open>An exit code printed in an error message.\<close>

definition show_code :: "int \<Rightarrow> string" where
  "show_code code = (if 0 \<le> code then string_of_nat (nat code) else CHR ''-'' # string_of_nat (nat \<bar>code\<bar>))"

text \<open>
  A caller of \<^verbatim>\<open>updateProjectProgress\<close> that ignores the boolean it returns: only the
  files after the call matter, or the exception.
\<close>

definition report_progress :: "fs \<Rightarrow> string \<Rightarrow> string \<Rightarrow> real \<Rightarrow> exn + fs" where
  "report_progress files projectId processId progressValue =
     (case updateProjectProgress files projectId processId progressValue of
        Inl e \<Rightarrow> Inl e
      | Inr (files', ok) \<Rightarrow> Inr files')"

fun report_progress_times :: "nat \<Rightarrow> fs \<Rightarrow> string \<Rightarrow> string \<Rightarrow> real \<Rightarrow> exn + fs" where
  "report_progress_times 0 files projectId processId progressValue = Inr files"
| "report_progress_times (Suc n) files projectId processId progressValue =
     (case report_progress files projectId processId progressValue of
        Inl e \<Rightarrow> Inl e
      | Inr files' \<Rightarrow> report_progress_times n files' projectId processId progressValue)"

text \<open>
  One run of \<^verbatim>\<open>ffprobe\<close>, as \<^verbatim>\<open>getMediaDuration\<close> sees it: how many chunks arrive on its
  diagnostic stream, its exit code, and the number that \<^verbatim>\<open>parseFloat\<close> reads from its
  output (none when the output is not a number). The two identifiers are optional
  arguments; an argument left out is the empty string here, which is as falsy.
\<close>

record probe_run =
  stderr_chunks :: nat
  probe_exit_code :: int
  probe_output :: "real option"

definition getMediaDuration :: "fs \<Rightarrow> probe_run \<Rightarrow> string \<Rightarrow> string \<Rightarrow> fs \<times> (exn + real)" where
  "getMediaDuration files run projectId processId =
     (let shouldTrackProgress = (projectId \<noteq> [] \<and> processId \<noteq> [])
      in case (if shouldTrackProgress then report_progress files projectId processId 0 else Inr files) of
           Inl e \<Rightarrow> (files, Inl e)
         | Inr files1 \<Rightarrow>
             (case (if shouldTrackProgress
                    then report_progress_times (stderr_chunks run) files1 projectId processId 50
                    else Inr files1) of
                Inl e \<Rightarrow> (files1, Inl e)
              | Inr files2 \<Rightarrow>
                  (case (if shouldTrackProgress then report_progress files2 projectId processId 100
                         else Inr files2) of
                     Inl e \<Rightarrow> (files2, Inl e)
                   | Inr files3 \<Rightarrow>
                       if probe_exit_code run \<noteq> 0
                       then (files3, Inl (Error (''ffprobe exited with code '' @ show_code (probe_exit_code run))))
                       else (case probe_output run of
                               None \<Rightarrow> (files3, Inl (Error ''Unable to parse duration from ffprobe output''))
                             | Some duration \<Rightarrow> (files3, Inr duration)))))"

record segment =
  seg_id :: nat
  seg_duration :: real
  seg_filename :: string

text \<open>One invocation of the media tool by the split loop: \<^verbatim>\<open>-ss\<close>, \<^verbatim>\<open>-t\<close> and the
  output file.\<close>

record ffmpeg_cut =
  cut_start :: real
  cut_duration :: real
  cut_filename :: string

text \<open>The values that the body of the split loop computes for index \<open>i\<close>.\<close>

definition cut_at :: "real \<Rightarrow> real \<Rightarrow> nat \<Rightarrow> ffmpeg_cut" where
  "cut_at videoDuration segmentDuration i =
     (let startTime = real i * segmentDuration;
          currentSegmentDuration = min segmentDuration (videoDuration - startTime);
          segmentFilename = ''segment_'' @ string_of_nat (i + 1) @ ''.mp4''
      in \<lparr>cut_start = startTime, cut_duration = currentSegmentDuration, cut_filename = segmentFilename\<rparr>)"

definition segment_at :: "real \<Rightarrow> real \<Rightarrow> nat \<Rightarrow> segment" where
  "segment_at videoDuration segmentDuration i =
     \<lparr>seg_id = i + 1,
      seg_duration = cut_duration (cut_at videoDuration segmentDuration i),
      seg_filename = cut_filename (cut_at videoDuration segmentDuration i)\<rparr>"

text \<open>
  The loop \<^verbatim>\<open>for (let i = 0; i < segmentCount; i++)\<close>, with \<open>n\<close> rounds left from index
  \<open>i\<close>. Each round reports the share of finished segments, records the current segment in
  the metadata, runs the media tool and, when it exits with code 0, appends the segment.
\<close>

fun split_loop :: "string \<Rightarrow> string \<Rightarrow> real \<Rightarrow> real \<Rightarrow> int \<Rightarrow> (nat \<Rightarrow> int) \<Rightarrow> nat \<Rightarrow> nat \<Rightarrow>
    fs \<times> ffmpeg_cut list \<times> segment list \<Rightarrow> fs \<times> ffmpeg_cut list \<times> (exn + segment list)" where
  "split_loop projectId processId videoDuration segmentDuration segmentCount exit_code 0 i
       (files, cuts, segments) = (files, cuts, Inr segments)"
| "split_loop projectId processId videoDuration segmentDuration segmentCount exit_code (Suc n) i
       (files, cuts, segments) =
     (let progressPercentage = real_of_int (round (real i / real_of_int segmentCount * 100))
      in case report_progress files projectId processId progressPercentage of
           Inl e \<Rightarrow> (files, cuts, Inl e)
         | Inr files1 \<Rightarrow>
             (let files2 = fst (updateProjectMetadata files1 projectId
                                  [''currentSegment'' \<mapsto> Defined (JNum (real (i + 1))),
                                   ''totalSegments'' \<mapsto> Defined (JNum (real_of_int segmentCount))]);
                  cuts' = cuts @ [cut_at videoDuration segmentDuration i]
              in if exit_code i \<noteq> 0
                 then (files2, cuts',
                       Inl (Error (''FFmpeg segment exited with code '' @ show_code (exit_code i))))
                 else split_loop projectId processId videoDuration segmentDuration segmentCount
                        exit_code n (Suc i)
                        (files2, cuts', segments @ [segment_at videoDuration segmentDuration i])))"

text \<open>
  \<^verbatim>\<open>splitVideoIntoSegments\<close> of the split route. The probe of the duration reports under
  a fresh identifier \<open>probeId\<close>; \<open>exit_code i\<close> is the exit code of the media tool for
  the segment of index \<open>i\<close>. The route calls it with a segment length of 60 seconds; a
  length of zero is outside the model.
\<close>

definition splitVideoIntoSegments :: "fs \<Rightarrow> real \<Rightarrow> ffmpeg_tools \<Rightarrow> string \<Rightarrow> string \<Rightarrow>
    string \<Rightarrow> probe_run \<Rightarrow> (nat \<Rightarrow> int) \<Rightarrow> fs \<times> ffmpeg_cut list \<times> (exn + segment list)" where
  "splitVideoIntoSegments files segmentDuration ffmpegTools projectId processId probeId run exit_code =
     (if not_found (ffmpeg ffmpegTools) \<or> not_found (ffprobe ffmpegTools)
      then (files, [], Inl (Error ''FFmpeg tools are required for video segmentation''))
      else case getMediaDuration (mkdirSync_recursive files projectId) run projectId probeId of
             (files1, Inl e) \<Rightarrow> (files1, [], Inl e)
           | (files1, Inr videoDuration) \<Rightarrow>
               (let segmentCount = \<lceil>videoDuration / segmentDuration\<rceil>
                in case split_loop projectId processId videoDuration segmentDuration segmentCount
                          exit_code (nat segmentCount) 0 (files1, [], []) of
                     (files2, cuts, Inl e) \<Rightarrow> (files2, cuts, Inl e)
                   | (files2, cuts, Inr segments) \<Rightarrow>
                       (case report_progress files2 projectId processId 100 of
                          Inl e \<Rightarrow> (files2, cuts, Inl e)
                        | Inr files3 \<Rightarrow>
                            (fst (updateProjectMetadata files3 projectId
                                    [''currentSegment'' \<mapsto> Defined (JNum (real_of_int segmentCount)),
                                     ''totalSegments'' \<mapsto> Defined (JNum (real_of_int segmentCount))]),
                             cuts, Inr segments))))"

subsection \<open>The function of the same name in \<^verbatim>\<open>lib/utils/media\<close>\<close>

text \<open>
  No route calls it. It keeps the full length for every segment but the last, gives the
  last one the rest (or one second when nothing is left), and stores rounded durations.
  It touches no file of the model.
\<close>

definition lib_segment_at :: "real \<Rightarrow> real \<Rightarrow> int \<Rightarrow> nat \<Rightarrow> segment" where
  "lib_segment_at totalDuration segmentDuration numSegments i =
     (let startTime = real i * segmentDuration;
          duration = (if int i = numSegments - 1
                      then (if totalDuration - startTime \<le> 0 then 1 else totalDuration - startTime)
                      else segmentDuration);
          segmentId = i + 1
      in \<lparr>seg_id = segmentId, seg_duration = real_of_int (round duration),
          seg_filename = ''segment-'' @ string_of_nat segmentId @ ''.mp4''\<rparr>)"

fun lib_split_loop :: "real \<Rightarrow> real \<Rightarrow> int \<Rightarrow> (nat \<Rightarrow> int) \<Rightarrow> nat \<Rightarrow> nat \<Rightarrow> segment list \<Rightarrow>
    exn + segment list" where
  "lib_split_loop totalDuration segmentDuration numSegments exit_code 0 i segments = Inr segments"
| "lib_split_loop totalDuration segmentDuration numSegments exit_code (Suc n) i segments =
     (if exit_code i = 0
      then lib_split_loop totalDuration segmentDuration numSegments exit_code n (Suc i)
             (segments @ [lib_segment_at totalDuration segmentDuration numSegments i])
      else Inl (Error (''ffmpeg segment '' @ string_of_nat (i + 1) @ '' failed with code ''
                       @ show_code (exit_code i))))"

definition lib_splitVideoIntoSegments :: "real \<Rightarrow> real \<Rightarrow> (nat \<Rightarrow> int) \<Rightarrow> exn + segment list" where
  "lib_splitVideoIntoSegments totalDuration segmentDuration exit_code =
     lib_split_loop totalDuration segmentDuration \<lceil>totalDuration / segmentDuration\<rceil> exit_code
       (nat \<lceil>totalDuration / segmentDuration\<rceil>) 0 []"

text \<open>No stored record of the project has a \<^verbatim>\<open>progress\<close> field outside its declared type.\<close>

definition store_ok :: "fs \<Rightarrow> string \<Rightarrow> bool" where
  "store_ok files projectId =
     (case project_record files projectId of None \<Rightarrow> True | Some m \<Rightarrow> progress_well_typed m)"

subsection \<open>A sample run of the split stage\<close>

definition example_tools :: ffmpeg_tools where
  "example_tools = \<lparr>ffmpeg = Some ''/usr/bin/ffmpeg'', ffprobe = Some ''/usr/bin/ffprobe''\<rparr>"

definition example_probe :: probe_run where
  "example_probe = \<lparr>stderr_chunks = 1, probe_exit_code = 0, probe_output = Some 125\<rparr>"

definition all_exit_zero :: "nat \<Rightarrow> int" where
  "all_exit_zero i = 0"

section \<open>Subtitle lines (\<^verbatim>\<open>createSubtitleFile\<close>)\<close>

text \<open>
  A caption and a subtitle line have the same shape: start time, end time and text.
  Times are seconds; they are only copied and compared here. Strings are sequences of
  characters and \<^verbatim>\<open>length\<close> counts them.
\<close>

record timed_text =
  t_start :: real
  t_end :: real
  t_text :: string

record current_line =
  cl_start :: real
  cl_end :: real
  cl_text :: string
  wordCount :: nat

text \<open>\<^verbatim>\<open>String.prototype.trim\<close>, on the white space of ASCII.\<close>

definition is_space :: "char \<Rightarrow> bool" where
  "is_space c = (c \<in> {CHR '' '', CHR 0x09, CHR 0x0A, CHR 0x0B, CHR 0x0C, CHR 0x0D})"

definition trim :: "string \<Rightarrow> string" where
  "trim s = rev (dropWhile is_space (rev (dropWhile is_space s)))"

text \<open>The body of \<^verbatim>\<open>captions.forEach\<close>: the lines pushed so far and the current line.\<close>

definition pack_word :: "timed_text list \<times> current_line \<Rightarrow> timed_text \<Rightarrow> timed_text list \<times> current_line" where
  "pack_word state caption =
     (let lines = fst state;
          currentLine = (if wordCount (snd state) = 0
                         then (snd state)\<lparr>cl_start := t_start caption\<rparr> else snd state);
          state' =
            (if wordCount currentLine \<ge> 5 \<or> length (cl_text currentLine) + length (t_text caption) \<ge> 20
             then (if wordCount currentLine > 0
                   then (lines @ [\<lparr>t_start = cl_start currentLine, t_end = t_start caption,
                                   t_text = trim (cl_text currentLine)\<rparr>],
                         \<lparr>cl_start = t_start caption, cl_end = 0,
                          cl_text = t_text caption @ '' '', wordCount = 1\<rparr>)
                   else (lines, currentLine))
             else (lines, currentLine\<lparr>cl_text := cl_text currentLine @ t_text caption @ '' '',
                                       wordCount := wordCount currentLine + 1\<rparr>))
      in (fst state', (snd state')\<lparr>cl_end := t_end caption\<rparr>))"

text \<open>The array \<^verbatim>\<open>lines\<close> from which the subtitle file is written. The rendering of the
  lines as text of the file is not part of the model.\<close>

definition group_lines :: "timed_text list \<Rightarrow> timed_text list" where
  "group_lines captions =
     (let state = foldl pack_word ([], \<lparr>cl_start = 0, cl_end = 0, cl_text = [], wordCount = 0\<rparr>) captions;
          lines = fst state; currentLine = snd state
      in if wordCount currentLine > 0
         then lines @ [\<lparr>t_start = cl_start currentLine, t_end = cl_end currentLine,
                         t_text = trim (cl_text currentLine)\<rparr>]
         else lines)"

subsection \<open>What the packing is meant to produce\<close>

text \<open>The text of a line under construction: every word followed by one space.\<close>

definition raw_text :: "timed_text list \<Rightarrow> string" where
  "raw_text ws = concat (map (\<lambda>w. t_text w @ '' '') ws)"

text \<open>
  The lines of a list of word groups, as the specification describes them: a line starts
  with its first word; a closed line ends where the next line starts, the final line ends
  with its last word; its text is the words separated by spaces.
\<close>

fun render_lines :: "timed_text list list \<Rightarrow> timed_text list" where
  "render_lines [] = []"
| "render_lines [g] = [\<lparr>t_start = t_start (hd g), t_end = t_end (last g), t_text = trim (raw_text g)\<rparr>]"
| "render_lines (g # g' # gs) =
     \<lparr>t_start = t_start (hd g), t_end = t_start (hd g'), t_text = trim (raw_text g)\<rparr>
       # render_lines (g' # gs)"

text \<open>A group is within the limits: one to five words, and no more than 20 characters
  when it has more than one word.\<close>

definition within_limits :: "timed_text list \<Rightarrow> bool" where
  "within_limits g = (1 \<le> length g \<and> length g \<le> 5 \<and> (2 \<le> length g \<longrightarrow> length (raw_text g) \<le> 20))"

text \<open>The word \<open>w\<close> did not fit on the line of the words \<open>g\<close>.\<close>

definition overflows :: "timed_text list \<Rightarrow> timed_text \<Rightarrow> bool" where
  "overflows g w = (5 \<le> length g \<or> 20 \<le> length (raw_text g) + length (t_text w))"

fun greedy :: "timed_text list list \<Rightarrow> bool" where
  "greedy [] = True"
| "greedy [g] = True"
| "greedy (g # g' # gs) = (overflows g (hd g') \<and> greedy (g' # gs))"

fun adjacent :: "timed_text list \<Rightarrow> bool" where
  "adjacent [] = True"
| "adjacent [l] = True"
| "adjacent (l # l' # ls) = (t_end l = t_start l' \<and> adjacent (l' # ls))"

fun monotone_intervals :: "timed_text list \<Rightarrow> bool" where
  "monotone_intervals [] = True"
| "monotone_intervals [l] = (t_start l \<le> t_end l)"
| "monotone_intervals (l # l' # ls) =
     (t_start l \<le> t_end l \<and> t_end l \<le> t_start l' \<and> monotone_intervals (l' # ls))"

text \<open>
  The greedy packing in the words of the specification: words accumulate in the current
  line until the next word would exceed the limits; then the line is closed and a new line
  begins with that word. \<open>gs\<close> are the closed lines, \<open>cur\<close> is the current line.
\<close>

fun spec_pack :: "timed_text list list \<Rightarrow> timed_text list \<Rightarrow> timed_text list \<Rightarrow> timed_text list list" where
  "spec_pack gs cur [] = (if cur = [] then gs else gs @ [cur])"
| "spec_pack gs cur (w # ws) =
     (if cur \<noteq> [] \<and> overflows cur w then spec_pack (gs @ [cur]) [w] ws
      else spec_pack gs (cur @ [w]) ws)"

text \<open>The lines of closed groups, the last of which ends at \<open>next_start\<close>.\<close>

fun closed_lines :: "timed_text list list \<Rightarrow> real \<Rightarrow> timed_text list" where
  "closed_lines [] next_start = []"
| "closed_lines [g] next_start =
     [\<lparr>t_start = t_start (hd g), t_end = next_start, t_text = trim (raw_text g)\<rparr>]"
| "closed_lines (g # g' # gs) next_start =
     \<lparr>t_start = t_start (hd g), t_end = t_start (hd g'), t_text = trim (raw_text g)\<rparr>
       # closed_lines (g' # gs) next_start"

text \<open>The state of the loop of \<^verbatim>\<open>createSubtitleFile\<close> that stands for closed groups \<open>gs\<close>
  and a current group \<open>cur\<close>.\<close>

definition state_of :: "timed_text list list \<Rightarrow> timed_text list \<Rightarrow> timed_text list \<times> current_line" where
  "state_of gs cur =
     (closed_lines gs (t_start (hd cur)),
      \<lparr>cl_start = t_start (hd cur), cl_end = t_end (last cur), cl_text = raw_text cur,
       wordCount = length cur\<rparr>)"

definition finish_lines :: "timed_text list \<times> current_line \<Rightarrow> timed_text list" where
  "finish_lines state =
     (if wordCount (snd state) > 0
      then fst state @ [\<lparr>t_start = cl_start (snd state), t_end = cl_end (snd state),
                          t_text = trim (cl_text (snd state))\<rparr>]
      else fst state)"

definition too_long :: "timed_text \<Rightarrow> bool" where
  "too_long w = (20 \<le> length (t_text w))"

subsection \<open>Sample captions\<close>

definition example_captions :: "timed_text list" where
  "example_captions =
     [\<lparr>t_start = 0, t_end = 1, t_text = ''so''\<rparr>, \<lparr>t_start = 1, t_end = 2, t_text = ''what''\<rparr>,
      \<lparr>t_start = 2, t_end = 3, t_text = ''happened''\<rparr>, \<lparr>t_start = 3, t_end = 4, t_text = ''yesterday''\<rparr>,
      \<lparr>t_start = 4, t_end = 5, t_text = ''was''\<rparr>]"

section \<open>Captioning one segment (\<^verbatim>\<open>captionSegment\<close>)\<close>

text \<open>
  \<^verbatim>\<open>segments.json\<close> holds an array of segment objects, as the split stage writes it.
\<close>

definition read_segments :: "fs \<Rightarrow> string \<Rightarrow> exn + jsobj list" where
  "read_segments files projectId =
     (case files projectId of
        None \<Rightarrow> Inl (Error ''ENOENT'')
      | Some d \<Rightarrow>
          (case segments_json d of
             None \<Rightarrow> Inl (Error ''ENOENT'')
           | Some Garbage \<Rightarrow> Inl (Error ''SyntaxError'')
           | Some (Json segments) \<Rightarrow> Inr (map JSON_parse segments)))"

definition write_segments :: "fs \<Rightarrow> string \<Rightarrow> jsobj list \<Rightarrow> fs" where
  "write_segments files projectId segments =
     (case files projectId of
        None \<Rightarrow> files
      | Some d \<Rightarrow> files(projectId \<mapsto> d\<lparr>segments_json := Some (Json (map JSON_stringify segments))\<rparr>))"

text \<open>\<^verbatim>\<open>Array.prototype.findIndex\<close>; \<open>None\<close> stands for \<open>-1\<close>.\<close>

fun findIndex :: "('a \<Rightarrow> bool) \<Rightarrow> 'a list \<Rightarrow> nat option" where
  "findIndex p [] = None"
| "findIndex p (x # xs) = (if p x then Some 0 else map_option Suc (findIndex p xs))"

text \<open>The test \<^verbatim>\<open>s.id === segment.id\<close> for a numeric identifier.\<close>

definition has_id :: "real \<Rightarrow> jsobj \<Rightarrow> bool" where
  "has_id segment_id s = (s ''id'' = Some (Defined (JNum segment_id)))"

text \<open>
  The assignment \<^verbatim>\<open>segments[i] = x\<close>. Beyond the end of the array JavaScript extends it
  and leaves holes; the model fills a hole with an empty object. No assignment of the
  pipeline reaches that case, since every write keeps the length of the list.
\<close>

definition assign_index :: "jsobj list \<Rightarrow> nat \<Rightarrow> jsobj \<Rightarrow> jsobj list" where
  "assign_index segments i x =
     (if i < length segments then segments[i := x]
      else segments @ replicate (i - length segments) Map.empty @ [x])"

text \<open>
  The closure \<^verbatim>\<open>updateSegmentProgress\<close>: it never throws. Reading a property of a
  missing array element raises a \<^verbatim>\<open>TypeError\<close> that the closure swallows.
\<close>

definition updateSegmentProgress :: "fs \<Rightarrow> string \<Rightarrow> nat option \<Rightarrow> real \<Rightarrow> fs" where
  "updateSegmentProgress files projectId segmentIndex progress =
     (case segmentIndex of
        None \<Rightarrow> files
      | Some i \<Rightarrow>
          (case read_segments files projectId of
             Inl e \<Rightarrow> files
           | Inr segments \<Rightarrow>
               if i < length segments
               then (if (segments ! i) ''captioningStatus'' = Some (Defined (JStr ''in-progress''))
                     then write_segments files projectId
                            (segments[i := (segments ! i)(''captioningProgress'' \<mapsto>
                                              Defined (JNum (min progress 100)))])
                     else files)
               else files))"

text \<open>Linear map of a phase-local percentage into the slot of the phase.\<close>

definition phase_progress :: "real \<Rightarrow> real \<Rightarrow> real \<Rightarrow> real" where
  "phase_progress start end' p = start + (p / 100) * (end' - start)"

text \<open>A phase reporting through its callback: each value is mapped into the slot and
  stored.\<close>

definition report_phase :: "fs \<Rightarrow> string \<Rightarrow> nat option \<Rightarrow> real \<Rightarrow> real \<Rightarrow> real list \<Rightarrow> fs" where
  "report_phase files projectId segmentIndex start end' reports =
     foldl (\<lambda>f p. updateSegmentProgress f projectId segmentIndex (phase_progress start end' p))
       files reports"

text \<open>
  What the collaborators of one run of the pipeline do: which tools are found, how each
  external phase ends (\<open>None\<close> or \<open>Inr\<close>: it resolves), the percentages it passes to its
  progress callback before that, whether the output files exist with content, the title
  text that the text-generation service returns, and the time stamp of the clock.
\<close>

record caption_run =
  found_tools :: ffmpeg_tools
  extract_audio :: "exn option"
  whisper_reports :: "real list"
  whisper :: "exn + timed_text list"
  burn_reports :: "real list"
  burn :: "exn option"
  captioned_file_ok :: bool
  generated_subtitle :: "string option"
  overlay_reports :: "real list"
  overlay :: "exn option"
  final_file_ok :: bool
  copy_file :: "exn option"
  now :: string

definition string_or_undefined :: "string option \<Rightarrow> js" where
  "string_or_undefined s = (case s of None \<Rightarrow> Undefined | Some t \<Rightarrow> if t = [] then Undefined else Defined (JStr t))"

text \<open>
  The \<^verbatim>\<open>try\<close> block, in four parts from its end to its start. Each part gives the
  files when the block ends, and the exception if it ends by one. The audio sample, the
  subtitle file written by \<^verbatim>\<open>createSubtitleFile\<close> and the intermediate videos live in
  the captions directory, outside the model; what the steps that make them can do to the
  run is in \<open>caption_run\<close>.
\<close>

definition finish_segment :: "fs \<Rightarrow> string \<Rightarrow> real \<Rightarrow> nat option \<Rightarrow> caption_run \<Rightarrow> fs \<times> (exn + unit)" where
  "finish_segment f9 projectId segment_id segmentIndex run =
     (let f10 = updateSegmentProgress f9 projectId segmentIndex 100
      in case read_segments f10 projectId of
           Inl e \<Rightarrow> (f10, Inl e)
         | Inr segments \<Rightarrow>
             (case segmentIndex of
                None \<Rightarrow> (f10, Inr ())
              | Some i \<Rightarrow>
                  (write_segments f10 projectId
                     (assign_index segments i
                        (spread (if i < length segments then segments ! i else Map.empty)
                           [''captioningStatus'' \<mapsto> Defined (JStr ''completed''),
                            ''captioningCompletedAt'' \<mapsto> Defined (JStr (now run)),
                            ''captioningProgress'' \<mapsto> Defined (JNum 100),
                            ''subtitle'' \<mapsto> string_or_undefined (generated_subtitle run),
                            ''captionedFilename'' \<mapsto>
                               Defined (JStr (''captioned_segment_'' @ show_code \<lfloor>segment_id\<rfloor> @ ''.mp4''))])),
                   Inr ())))"

definition overlay_phase :: "fs \<Rightarrow> string \<Rightarrow> real \<Rightarrow> nat option \<Rightarrow> caption_run \<Rightarrow> fs \<times> (exn + unit)" where
  "overlay_phase f7 projectId segment_id segmentIndex run =
     (case read_metadata f7 projectId of
        Inl e \<Rightarrow> (f7, Inl e)
      | Inr metadata \<Rightarrow>
          (let f8 = report_phase f7 projectId segmentIndex 80 95 (overlay_reports run)
           in case overlay run of
                Some e \<Rightarrow> (f8, Inl e)
              | None \<Rightarrow>
                  (let f9 = updateSegmentProgress f8 projectId segmentIndex 95
                   in if \<not> final_file_ok run
                      then (f9, Inl (Error ''Failed to add title to video or output file is empty''))
                      else case copy_file run of
                             Some e \<Rightarrow> (f9, Inl e)
                           | None \<Rightarrow> finish_segment f9 projectId segment_id segmentIndex run)))"

definition burn_phase :: "fs \<Rightarrow> string \<Rightarrow> real \<Rightarrow> nat option \<Rightarrow> caption_run \<Rightarrow> fs \<times> (exn + unit)" where
  "burn_phase f3 projectId segment_id segmentIndex run =
     (let f4 = updateSegmentProgress f3 projectId segmentIndex 45;
          f5 = updateSegmentProgress f4 projectId segmentIndex 50;
          f6 = report_phase f5 projectId segmentIndex 50 80 (burn_reports run)
      in case burn run of
           Some e \<Rightarrow> (f6, Inl e)
         | None \<Rightarrow>
             if \<not> captioned_file_ok run
             then (f6, Inl (Error ''Failed to create captioned video or output file is empty''))
             else overlay_phase (updateSegmentProgress f6 projectId segmentIndex 80)
                    projectId segment_id segmentIndex run)"

definition captionSegment_try :: "fs \<Rightarrow> string \<Rightarrow> real \<Rightarrow> caption_run \<Rightarrow> fs \<times> (exn + unit)" where
  "captionSegment_try files projectId segment_id run =
     (if not_found (ffmpeg (found_tools run)) \<or> not_found (ffprobe (found_tools run))
      then (files, Inl (Error ''FFmpeg tools not found. Please install FFmpeg and make sure it is in your PATH.''))
      else case read_segments (mkdirSync_recursive files projectId) projectId of
             Inl e \<Rightarrow> (mkdirSync_recursive files projectId, Inl e)
           | Inr segments \<Rightarrow>
               (let segmentIndex = findIndex (has_id segment_id) segments;
                    f1 = updateSegmentProgress (mkdirSync_recursive files projectId) projectId segmentIndex 0
                in case extract_audio run of
                     Some e \<Rightarrow> (f1, Inl e)
                   | None \<Rightarrow>
                       (let f2 = updateSegmentProgress f1 projectId segmentIndex 5;
                            f3 = report_phase f2 projectId segmentIndex 5 45 (whisper_reports run)
                        in case whisper run of
                             Inl e \<Rightarrow> (f3, Inl e)
                           | Inr captions \<Rightarrow> burn_phase f3 projectId segment_id segmentIndex run)))"

text \<open>The message of a caught exception.\<close>

fun message :: "exn \<Rightarrow> string" where
  "message (Error m) = m"
| "message TypeError = ''TypeError''"

text \<open>The \<^verbatim>\<open>catch\<close> block: mark the segment as failed; its own errors are swallowed.\<close>

definition captionSegment_catch :: "fs \<Rightarrow> string \<Rightarrow> real \<Rightarrow> exn \<Rightarrow> string \<Rightarrow> fs" where
  "captionSegment_catch files projectId segment_id error now' =
     (case read_segments files projectId of
        Inl e \<Rightarrow> files
      | Inr segments \<Rightarrow>
          (case findIndex (has_id segment_id) segments of
             None \<Rightarrow> files
           | Some segmentIndex \<Rightarrow>
               write_segments files projectId
                 (assign_index segments segmentIndex
                    (spread (segments ! segmentIndex)
                       [''captioningStatus'' \<mapsto> Defined (JStr ''failed''),
                        ''captioningFailedAt'' \<mapsto> Defined (JStr now'),
                        ''captioningError'' \<mapsto> Defined (JStr (message error))]))))"

text \<open>The whole function; the second component tells whether the \<^verbatim>\<open>catch\<close> block ran,
  and with which exception.\<close>

definition captionSegment :: "fs \<Rightarrow> string \<Rightarrow> real \<Rightarrow> caption_run \<Rightarrow> fs \<times> exn option" where
  "captionSegment files projectId segment_id run =
     (case captionSegment_try files projectId segment_id run of
        (files', Inl e) \<Rightarrow> (captionSegment_catch files' projectId segment_id e (now run), Some e)
      | (files', Inr u) \<Rightarrow> (files', None))"

text \<open>The segment list of a project, when \<^verbatim>\<open>segments.json\<close> exists and parses.\<close>

definition segment_list :: "fs \<Rightarrow> string \<Rightarrow> obj list option" where
  "segment_list files projectId =
     (case files projectId of
        None \<Rightarrow> None
      | Some d \<Rightarrow> (case segments_json d of Some (Json segments) \<Rightarrow> Some segments | _ \<Rightarrow> None))"

text \<open>Everything of the project directories except \<^verbatim>\<open>segments.json\<close> of one project.\<close>

definition without_segments :: "project_dir \<Rightarrow> project_dir" where
  "without_segments d = d\<lparr>segments_json := None\<rparr>"

definition same_but_segments :: "fs \<Rightarrow> fs \<Rightarrow> string \<Rightarrow> bool" where
  "same_but_segments files files' projectId =
     ((\<forall>q. q \<noteq> projectId \<longrightarrow> files' q = files q)
      \<and> map_option without_segments (files' projectId) = map_option without_segments (files projectId))"

text \<open>
  What a run of the pipeline for the segment at index \<open>i\<close> may change in the segment list:
  the length stays, the other segments stay, and no identifier changes.
\<close>

definition seg_frame :: "nat \<Rightarrow> obj list \<Rightarrow> obj list \<Rightarrow> bool" where
  "seg_frame i segs segs' =
     (length segs' = length segs
      \<and> (\<forall>j < length segs. j \<noteq> i \<longrightarrow> segs' ! j = segs ! j)
      \<and> (\<forall>j < length segs. (segs' ! j) ''id'' = (segs ! j) ''id''))"

definition frame :: "string \<Rightarrow> nat option \<Rightarrow> fs \<Rightarrow> fs \<Rightarrow> bool" where
  "frame projectId segmentIndex files files' =
     (same_but_segments files files' projectId
      \<and> (case segment_list files projectId of
            None \<Rightarrow> files' = files
          | Some segs \<Rightarrow>
              (case segmentIndex of
                 None \<Rightarrow> files' = files
               | Some i \<Rightarrow> (\<exists>segs'. segment_list files' projectId = Some segs' \<and> seg_frame i segs segs'))))"

definition valid_index :: "nat option \<Rightarrow> fs \<Rightarrow> string \<Rightarrow> bool" where
  "valid_index segmentIndex files projectId =
     (case segmentIndex of
        None \<Rightarrow> True
      | Some i \<Rightarrow> (case segment_list files projectId of None \<Rightarrow> True | Some segs \<Rightarrow> i < length segs))"

definition framed :: "string \<Rightarrow> nat option \<Rightarrow> fs \<Rightarrow> fs \<Rightarrow> bool" where
  "framed projectId segmentIndex files files' =
     (frame projectId segmentIndex files files' \<and> valid_index segmentIndex files' projectId)"

subsection \<open>A sample segment list and a run whose transcription fails\<close>

definition example_segments :: "obj list" where
  "example_segments =
     [[''id'' \<mapsto> JNum 1, ''filename'' \<mapsto> JStr ''segment_1.mp4'', ''duration'' \<mapsto> JNum 60,
       ''captioningStatus'' \<mapsto> JStr ''in-progress'', ''captioningProgress'' \<mapsto> JNum 0],
      [''id'' \<mapsto> JNum 2, ''filename'' \<mapsto> JStr ''segment_2.mp4'', ''duration'' \<mapsto> JNum 60,
       ''captioningStatus'' \<mapsto> JStr ''completed'', ''captioningProgress'' \<mapsto> JNum 100]]"

definition example_captioning_fs :: fs where
  "example_captioning_fs = [''p1'' \<mapsto> example_dir\<lparr>segments_json := Some (Json example_segments)\<rparr>]"

definition failing_run :: caption_run where
  "failing_run =
     \<lparr>found_tools = example_tools, extract_audio = None, whisper_reports = [50],
      whisper = Inl (Error ''Whisper exited with code 1''), burn_reports = [], burn = None,
      captioned_file_ok = True, generated_subtitle = None, overlay_reports = [], overlay = None,
      final_file_ok = True, copy_file = None, now = ''2025-01-01T00:00:00.000Z''\<rparr>"

section \<open>The download stage (\<^verbatim>\<open>POST\<close>, \<^verbatim>\<open>downloadMedia\<close>, \<^verbatim>\<open>downloadYouTubeVideo\<close>)\<close>

text \<open>
  The body of the request: the two addresses (a missing one is the empty string here,
  which is as falsy) and the four offsets, each with the default 0 when it is left out.
\<close>

record download_request =
  req_video :: string
  req_audio :: string
  req_startTime :: "real option"
  req_endTime :: "real option"
  req_audioStartTime :: "real option"
  req_audioEndTime :: "real option"

definition or_zero :: "real option \<Rightarrow> real" where
  "or_zero x = (case x of None \<Rightarrow> 0 | Some v \<Rightarrow> v)"

text \<open>
  The route writes a fresh record, whatever was there before, and initialises the
  progress of the stage's process identifier. The identifier comes from \<^verbatim>\<open>uuidv4()\<close>
  and the creation time from the clock; both are parameters.
\<close>

definition POST_download :: "fs \<Rightarrow> string \<Rightarrow> download_request \<Rightarrow> string \<Rightarrow> string \<Rightarrow> fs \<times> response" where
  "POST_download files projectId request processId createdAt =
     (if req_video request = [] \<or> req_audio request = []
      then (files, ErrorResponse ''Missing required parameters'' 400)
      else
        (let files1 = mkdirSync_recursive files projectId;
             files2 = write_metadata files1 projectId
               [''id'' \<mapsto> Defined (JStr projectId),
                ''createdAt'' \<mapsto> Defined (JStr createdAt),
                ''status'' \<mapsto> Defined (JStr (status_string INITIALIZING)),
                ''videoUrl'' \<mapsto> Defined (JStr (req_video request)),
                ''audioUrl'' \<mapsto> Defined (JStr (req_audio request)),
                ''startTime'' \<mapsto> Defined (JNum (or_zero (req_startTime request))),
                ''endTime'' \<mapsto> Defined (JNum (or_zero (req_endTime request))),
                ''audioStartTime'' \<mapsto> Defined (JNum (or_zero (req_audioStartTime request))),
                ''audioEndTime'' \<mapsto> Defined (JNum (or_zero (req_audioEndTime request))),
                ''currentProcess'' \<mapsto> Defined (JStr ''download''),
                ''downloadProcessId'' \<mapsto> Defined (JStr processId)]
         in case updateProjectProgress files2 projectId processId 0 of
              Inl e \<Rightarrow> (files2, ErrorResponse ''Failed to start download process'' 500)
            | Inr (files3, ok) \<Rightarrow> (files3, Accepted projectId processId)))"

subsection \<open>One download job\<close>

text \<open>
  \<^verbatim>\<open>downloadMedia\<close> runs two jobs at the same time, one for the visual track and one for
  the audio track. The process identifier of a job is the identifier of the stage with a
  suffix; its output file is \<^verbatim>\<open>source/video.mp4\<close> or \<^verbatim>\<open>source/audio.mp3\<close> in the
  project directory (paths are written from the working directory of the server).
\<close>

datatype job = VideoJob | AudioJob

fun job_processId :: "string \<Rightarrow> job \<Rightarrow> string" where
  "job_processId processId VideoJob = processId @ ''_video''"
| "job_processId processId AudioJob = processId @ ''_audio''"

fun job_outputPath :: "string \<Rightarrow> job \<Rightarrow> string" where
  "job_outputPath projectId VideoJob = ''projects/'' @ projectId @ ''/source/video.mp4''"
| "job_outputPath projectId AudioJob = ''projects/'' @ projectId @ ''/source/audio.mp3''"

text \<open>
  What the child process of a job sends to its handlers: a chunk of output in which the
  pattern \<^verbatim>\<open>\[download.*?\]\s+(\d+\.?\d*)%\<close> matches, with the number that
  \<^verbatim>\<open>parseFloat\<close> reads from the match; a chunk of diagnostics (trimmed); the close of
  the process, with its exit code and the size of the output file if that file exists; or
  the failure to start the process. A chunk of output without a match has no effect and
  is left out.
\<close>

datatype child_event =
    Percentage real
  | Diagnostics string
  | Closed int "nat option"
  | StartFailure string

datatype download_result = Success string nat | Failure string

text \<open>
  The state of a job: whether its handlers are attached, the diagnostics collected so
  far, and the value its promise has resolved with, if it has. Resolving a promise a
  second time has no effect.
\<close>

record job_state =
  attached :: bool
  stderrData :: string
  resolved :: "download_result option"

definition resolve :: "job_state \<Rightarrow> download_result \<Rightarrow> job_state" where
  "resolve s r = (if resolved s = None then s\<lparr>resolved := Some r\<rparr> else s)"

text \<open>
  The call of \<^verbatim>\<open>downloadYouTubeVideo\<close> itself: inside \<^verbatim>\<open>try\<close>, the progress of the job
  is set to 0, the child process is spawned and the handlers are attached. An exception
  there resolves the promise with a failure, and nothing is spawned.
\<close>

definition downloadYouTubeVideo :: "fs \<Rightarrow> string \<Rightarrow> string \<Rightarrow> fs \<times> job_state" where
  "downloadYouTubeVideo files projectId processId =
     (case report_progress files projectId processId 0 of
        Inl e \<Rightarrow> (files, \<lparr>attached = False, stderrData = [],
                          resolved = Some (Failure (''Error executing yt-dlp: '' @ message e))\<rparr>)
      | Inr files' \<Rightarrow> (files', \<lparr>attached = True, stderrData = [], resolved = None\<rparr>))"

text \<open>
  The handlers that \<^verbatim>\<open>downloadYouTubeVideo\<close> attaches. The one for output passes the
  parsed percentage to \<^verbatim>\<open>updateProjectProgress\<close> as it is. The one for the close of the
  process sets the progress to 100 when the exit code is 0 and the output file exists
  and is not empty. An exception inside a handler is caught by nobody (\<open>Inl\<close>).
\<close>

fun on_child_event :: "string \<Rightarrow> string \<Rightarrow> string \<Rightarrow> child_event \<Rightarrow> fs \<Rightarrow> job_state \<Rightarrow>
    exn + fs \<times> job_state" where
  "on_child_event projectId processId path (Percentage percentage) files s =
     (case report_progress files projectId processId percentage of
        Inl e \<Rightarrow> Inl e
      | Inr files' \<Rightarrow> Inr (files', s))"
| "on_child_event projectId processId path (Diagnostics output) files s =
     Inr (files, s\<lparr>stderrData := stderrData s @ output\<rparr>)"
| "on_child_event projectId processId path (Closed code size') files s =
     (if code = 0
      then (case size' of
              None \<Rightarrow> Inr (files, resolve s (Failure ''Download completed but file is missing or empty''))
            | Some fileSize \<Rightarrow>
                if fileSize > 0
                then (case report_progress files projectId processId 100 of
                        Inl e \<Rightarrow> Inl e
                      | Inr files' \<Rightarrow> Inr (files', resolve s (Success path fileSize)))
                else Inr (files, resolve s (Failure ''Download completed but file is missing or empty'')))
      else Inr (files, resolve s (Failure (''yt-dlp process exited with code '' @ show_code code
                                            @ ''. Error: '' @ stderrData s))))"
| "on_child_event projectId processId path (StartFailure m) files s =
     Inr (files, resolve s (Failure (''Failed to start yt-dlp process: '' @ m)))"

text \<open>The output file that a job's child process has left, as found when it closes.\<close>

definition output_file :: "fs \<Rightarrow> string \<Rightarrow> job \<Rightarrow> child_event \<Rightarrow> fs" where
  "output_file files projectId j ev =
     (case ev of
        Closed code (Some fileSize) \<Rightarrow>
          (case files projectId of
             None \<Rightarrow> files
           | Some d \<Rightarrow> (case j of
                          VideoJob \<Rightarrow> files(projectId \<mapsto> d\<lparr>source_video := True\<rparr>)
                        | AudioJob \<Rightarrow> files(projectId \<mapsto> d\<lparr>source_audio := True\<rparr>)))
      | _ \<Rightarrow> files)"

text \<open>
  The events of the two jobs, in the order in which they arrive; each handler runs to
  its end before the next event is taken. The events of a job end with its close or its
  failure to start. A job without handlers receives nothing.
\<close>

fun run_downloads :: "string \<Rightarrow> string \<Rightarrow> (job \<times> child_event) list \<Rightarrow> fs \<Rightarrow> job_state \<Rightarrow> job_state \<Rightarrow>
    fs \<times> (exn + job_state \<times> job_state)" where
  "run_downloads projectId processId [] files v a = (files, Inr (v, a))"
| "run_downloads projectId processId ((VideoJob, ev) # rest) files v a =
     (if \<not> attached v then run_downloads projectId processId rest files v a
      else case on_child_event projectId (job_processId processId VideoJob)
                  (job_outputPath projectId VideoJob) ev (output_file files projectId VideoJob ev) v of
             Inl e \<Rightarrow> (output_file files projectId VideoJob ev, Inl e)
           | Inr (files', v') \<Rightarrow> run_downloads projectId processId rest files' v' a)"
| "run_downloads projectId processId ((AudioJob, ev) # rest) files v a =
     (if \<not> attached a then run_downloads projectId processId rest files v a
      else case on_child_event projectId (job_processId processId AudioJob)
                  (job_outputPath projectId AudioJob) ev (output_file files projectId AudioJob ev) a of
             Inl e \<Rightarrow> (output_file files projectId AudioJob ev, Inl e)
           | Inr (files', a') \<Rightarrow> run_downloads projectId processId rest files' v a')"

subsection \<open>The two duration probes of the stage\<close>

text \<open>
  \<^verbatim>\<open>getMediaDuration\<close>, event by event, for two probes that run at the same time. A probe
  sends chunks of diagnostics and closes with its exit code, the text it has printed and
  the number that \<^verbatim>\<open>parseFloat\<close> reads from that text (none when it is not a number).
\<close>

datatype probe_event =
    ProbeDiagnostics string
  | ProbeClosed int string "real option"

record probe_state =
  listening :: bool
  errorOutput :: string
  settled :: "(exn + real) option"

definition settle :: "probe_state \<Rightarrow> exn + real \<Rightarrow> probe_state" where
  "settle s r = (if settled s = None then s\<lparr>settled := Some r\<rparr> else s)"

text \<open>The call itself: an exception in it rejects the promise before a handler is attached.\<close>

definition start_probe :: "fs \<Rightarrow> string \<Rightarrow> string \<Rightarrow> fs \<times> probe_state" where
  "start_probe files projectId processId =
     (let shouldTrackProgress = (projectId \<noteq> [] \<and> processId \<noteq> [])
      in case (if shouldTrackProgress then report_progress files projectId processId 0 else Inr files) of
           Inl e \<Rightarrow> (files, \<lparr>listening = False, errorOutput = [], settled = Some (Inl e)\<rparr>)
         | Inr files' \<Rightarrow> (files', \<lparr>listening = True, errorOutput = [], settled = None\<rparr>))"

fun on_probe_event :: "string \<Rightarrow> string \<Rightarrow> probe_event \<Rightarrow> fs \<Rightarrow> probe_state \<Rightarrow> exn + fs \<times> probe_state" where
  "on_probe_event projectId processId (ProbeDiagnostics chunk) files s =
     (case (if projectId \<noteq> [] \<and> processId \<noteq> [] then report_progress files projectId processId 50
            else Inr files) of
        Inl e \<Rightarrow> Inl e
      | Inr files' \<Rightarrow> Inr (files', s\<lparr>errorOutput := errorOutput s @ chunk\<rparr>))"
| "on_probe_event projectId processId (ProbeClosed code output duration) files s =
     (case (if projectId \<noteq> [] \<and> processId \<noteq> [] then report_progress files projectId processId 100
            else Inr files) of
        Inl e \<Rightarrow> Inl e
      | Inr files' \<Rightarrow>
          if code \<noteq> 0
          then Inr (files', settle s (Inl (Error (''ffprobe exited with code '' @ show_code code
                                                   @ '': '' @ errorOutput s))))
          else (case duration of
                  None \<Rightarrow> Inr (files', settle s (Inl (Error (''Unable to parse duration from ffprobe output: ''
                                                              @ output))))
                | Some d \<Rightarrow> Inr (files', settle s (Inr d))))"

subsection \<open>\<^verbatim>\<open>downloadMedia\<close>\<close>

text \<open>
  How the stage has ended: its last write of the record is done; its \<^verbatim>\<open>catch\<close> block
  has recorded a failure; it still waits for a promise; or an exception that nobody
  catches has stopped the server process.
\<close>

datatype stage_outcome = Completed | Failed string | Waiting | Crashed exn

text \<open>The \<^verbatim>\<open>catch\<close> block of \<^verbatim>\<open>downloadMedia\<close>.\<close>

definition downloadMedia_catch :: "fs \<Rightarrow> string \<Rightarrow> exn \<Rightarrow> fs \<times> stage_outcome" where
  "downloadMedia_catch files projectId e =
     (fst (updateProjectStatus files projectId DOWNLOAD_ERROR (Some (message e))), Failed (message e))"

text \<open>The end of the \<^verbatim>\<open>try\<close> block, once both durations are known.\<close>

definition downloadMedia_finish :: "fs \<Rightarrow> string \<Rightarrow> string \<Rightarrow> real \<Rightarrow> real \<Rightarrow> string \<Rightarrow> fs \<times> stage_outcome" where
  "downloadMedia_finish files projectId processId videoDuration audioDuration completedAt =
     (case read_metadata files projectId of
        Inl e \<Rightarrow> downloadMedia_catch files projectId e
      | Inr metadata \<Rightarrow>
          (write_metadata files projectId
             (metadata(''status'' \<mapsto> Defined (JStr (status_string DOWNLOADED)),
                       ''videoDuration'' \<mapsto> Defined (JNum videoDuration),
                       ''audioDuration'' \<mapsto> Defined (JNum audioDuration),
                       ''totalDuration'' \<mapsto> Defined (JNum audioDuration),
                       ''downloadCompletedAt'' \<mapsto> Defined (JStr completedAt),
                       ''downloadProcessId'' \<mapsto> Defined (JStr processId),
                       ''currentProcess'' \<mapsto> Defined (JStr ''trim''))),
           Completed))"

text \<open>
  \<^verbatim>\<open>await Promise.all\<close> on the two probes: the stage goes on as soon as one probe is
  rejected (into the \<^verbatim>\<open>catch\<close> block) or both have resolved, and it goes on only once.
\<close>

definition after_probes :: "string \<Rightarrow> string \<Rightarrow> string \<Rightarrow> fs \<Rightarrow> probe_state \<Rightarrow> probe_state \<Rightarrow> stage_outcome \<Rightarrow>
    fs \<times> stage_outcome" where
  "after_probes projectId processId completedAt files v a outcome =
     (if outcome \<noteq> Waiting then (files, outcome)
      else case settled v of
             Some (Inl e) \<Rightarrow> downloadMedia_catch files projectId e
           | Some (Inr videoDuration) \<Rightarrow>
               (case settled a of
                  Some (Inl e) \<Rightarrow> downloadMedia_catch files projectId e
                | Some (Inr audioDuration) \<Rightarrow>
                    downloadMedia_finish files projectId processId videoDuration audioDuration completedAt
                | None \<Rightarrow> (files, Waiting))
           | None \<Rightarrow>
               (case settled a of
                  Some (Inl e) \<Rightarrow> downloadMedia_catch files projectId e
                | _ \<Rightarrow> (files, Waiting)))"

text \<open>The events of the two probes in the order in which they arrive. The handlers of a
  probe go on writing its progress after the stage has gone on.\<close>

fun run_probes :: "string \<Rightarrow> string \<Rightarrow> string \<Rightarrow> string \<Rightarrow> string \<Rightarrow> (job \<times> probe_event) list \<Rightarrow>
    fs \<Rightarrow> probe_state \<Rightarrow> probe_state \<Rightarrow> stage_outcome \<Rightarrow> fs \<times> stage_outcome" where
  "run_probes projectId processId videoId audioId completedAt [] files v a outcome = (files, outcome)"
| "run_probes projectId processId videoId audioId completedAt ((VideoJob, ev) # rest) files v a outcome =
     (if \<not> listening v then run_probes projectId processId videoId audioId completedAt rest files v a outcome
      else case on_probe_event projectId videoId ev files v of
             Inl e \<Rightarrow> (files, Crashed e)
           | Inr (files1, v') \<Rightarrow>
               (case after_probes projectId processId completedAt files1 v' a outcome of
                  (files2, outcome') \<Rightarrow>
                    run_probes projectId processId videoId audioId completedAt rest files2 v' a outcome'))"
| "run_probes projectId processId videoId audioId completedAt ((AudioJob, ev) # rest) files v a outcome =
     (if \<not> listening a then run_probes projectId processId videoId audioId completedAt rest files v a outcome
      else case on_probe_event projectId audioId ev files a of
             Inl e \<Rightarrow> (files, Crashed e)
           | Inr (files1, a') \<Rightarrow>
               (case after_probes projectId processId completedAt files1 v a' outcome of
                  (files2, outcome') \<Rightarrow>
                    run_probes projectId processId videoId audioId completedAt rest files2 v a' outcome'))"

text \<open>
  One run of the stage, as \<^verbatim>\<open>downloadMedia\<close> sees it: the tools that \<^verbatim>\<open>findFfmpegPaths\<close>
  finds, the events of the two download jobs, the two identifiers that \<^verbatim>\<open>uuidv4()\<close>
  gives to the probes, the events of the two probes, and the time of completion.
\<close>

record stage_run =
  stage_tools :: ffmpeg_tools
  download_events :: "(job \<times> child_event) list"
  videoDurationProcessId :: string
  audioDurationProcessId :: string
  probe_events :: "(job \<times> probe_event) list"
  downloadCompletedAt :: string

text \<open>The second half of the \<^verbatim>\<open>try\<close> block: both download promises have resolved.\<close>

definition downloadMedia_probe :: "fs \<Rightarrow> string \<Rightarrow> string \<Rightarrow> stage_run \<Rightarrow> fs \<times> stage_outcome" where
  "downloadMedia_probe files projectId processId run =
     (case start_probe files projectId (videoDurationProcessId run) of
        (files1, v) \<Rightarrow>
          (case start_probe files1 projectId (audioDurationProcessId run) of
             (files2, a) \<Rightarrow>
               (case after_probes projectId processId (downloadCompletedAt run) files2 v a Waiting of
                  (files3, outcome) \<Rightarrow>
                    run_probes projectId processId (videoDurationProcessId run) (audioDurationProcessId run)
                      (downloadCompletedAt run) (probe_events run) files3 v a outcome)))"

text \<open>
  The whole function. The two addresses and the offsets of the record only make up the
  arguments of the download tool (see \<open>downloadMedia_video\<close> and \<open>downloadMedia_audio\<close>);
  they have no effect on the files. Nowhere does the function write the progress of its
  own process identifier.
\<close>

definition downloadMedia :: "fs \<Rightarrow> string \<Rightarrow> string \<Rightarrow> stage_run \<Rightarrow> fs \<times> stage_outcome" where
  "downloadMedia files projectId processId run =
     (if not_found (ffmpeg (stage_tools run)) \<or> not_found (ffprobe (stage_tools run))
      then downloadMedia_catch files projectId
             (Error ''FFmpeg tools not found. Please install FFmpeg and make sure it is in your PATH.'')
      else
        (let files1 = mkdirSync_recursive files projectId
         in case read_metadata files1 projectId of
              Inl e \<Rightarrow> downloadMedia_catch files1 projectId e
            | Inr metadata \<Rightarrow>
                (let files2 = write_metadata files1 projectId
                                (metadata(''status'' \<mapsto> Defined (JStr (status_string DOWNLOADING))))
                 in case downloadYouTubeVideo files2 projectId (job_processId processId VideoJob) of
                      (files3, v) \<Rightarrow>
                        (case downloadYouTubeVideo files3 projectId (job_processId processId AudioJob) of
                           (files4, a) \<Rightarrow>
                             (case run_downloads projectId processId (download_events run) files4 v a of
                                (files5, Inl e) \<Rightarrow> (files5, Crashed e)
                              | (files5, Inr (v', a')) \<Rightarrow>
                                  (case (resolved v', resolved a') of
                                     (Some (Failure m), Some r) \<Rightarrow>
                                       downloadMedia_catch files5 projectId
                                         (Error (''Failed to download video: '' @ m))
                                   | (Some (Success p n), Some (Failure m)) \<Rightarrow>
                                       downloadMedia_catch files5 projectId
                                         (Error (''Failed to download audio: '' @ m))
                                   | (Some (Success p n), Some (Success p' n')) \<Rightarrow>
                                       downloadMedia_probe files5 projectId processId run
                                   | _ \<Rightarrow> (files5, Waiting)))))))"

text \<open>The project has a record whose progress field has its declared type.\<close>

definition tracked :: "fs \<Rightarrow> string \<Rightarrow> bool" where
  "tracked files projectId =
     (case project_record files projectId of None \<Rightarrow> False | Some m \<Rightarrow> progress_well_typed m)"

text \<open>The stored captioning progress of the segment at an index.\<close>

definition captioning_progress :: "fs \<Rightarrow> string \<Rightarrow> nat \<Rightarrow> json option" where
  "captioning_progress files projectId i =
     (case segment_list files projectId of
        None \<Rightarrow> None
      | Some segs \<Rightarrow> if i < length segs then (segs ! i) ''captioningProgress'' else None)"

definition captioning_status :: "fs \<Rightarrow> string \<Rightarrow> nat \<Rightarrow> json option" where
  "captioning_status files projectId i =
     (case segment_list files projectId of
        None \<Rightarrow> None
      | Some segs \<Rightarrow> if i < length segs then (segs ! i) ''captioningStatus'' else None)"

subsection \<open>Sample runs\<close>

definition example_request :: download_request where
  "example_request =
     \<lparr>req_video = ''https://example.org/v'', req_audio = ''https://example.org/a'',
      req_startTime = None, req_endTime = None, req_audioStartTime = None, req_audioEndTime = Some 30\<rparr>"

text \<open>A run of the stage in which both jobs and both probes succeed.\<close>

definition good_stage_run :: stage_run where
  "good_stage_run =
     \<lparr>stage_tools = example_tools,
      download_events =
        [(VideoJob, Percentage 40), (AudioJob, Percentage 55.5), (AudioJob, Percentage 100),
         (AudioJob, Closed 0 (Some 512)), (VideoJob, Percentage 100), (VideoJob, Closed 0 (Some 1024))],
      videoDurationProcessId = ''u1'',
      audioDurationProcessId = ''u2'',
      probe_events = [(VideoJob, ProbeClosed 0 ''31.5'' (Some 31.5)), (AudioJob, ProbeClosed 0 ''30.0'' (Some 30))],
      downloadCompletedAt = ''2025-01-01T00:05:00.000Z''\<rparr>"

text \<open>The files after the route has accepted the sample request for a new project.\<close>

definition started_download :: fs where
  "started_download = fst (POST_download Map.empty ''p1'' example_request ''d1'' ''2025-01-01T00:00:00.000Z'')"

section \<open>Properties of the metadata store\<close>

lemma read_metadata_Json:
  "files projectId = Some d \<Longrightarrow> metadata_json d = Some (Json m) \<Longrightarrow>
     existsSync_metadata files projectId \<and> read_metadata files projectId = Inr (JSON_parse m)"
  by (simp add: existsSync_metadata_def read_metadata_def)

lemma mkdirSync_recursive_existing:
  "files projectId = Some d \<Longrightarrow> mkdirSync_recursive files projectId = files"
  by (simp add: mkdirSync_recursive_def)

lemma project_record_mkdirSync_recursive:
  "project_record (mkdirSync_recursive files projectId) q = project_record files q"
  by (auto simp: mkdirSync_recursive_def project_record_def split: option.splits)

lemma stringify_spread_parse:
  "JSON_stringify (spread (JSON_parse m) u) =
     (\<lambda>k. case u k of None \<Rightarrow> m k | Some Undefined \<Rightarrow> None | Some (Defined v) \<Rightarrow> Some v)"
  by (auto simp: JSON_stringify_def spread_def JSON_parse_def map_add_def fun_eq_iff
           split: option.splits js.splits)

lemma updateProjectMetadata_Json:
  assumes "files projectId = Some d" and "metadata_json d = Some (Json m)"
  shows "updateProjectMetadata files projectId u =
           (files(projectId \<mapsto> d\<lparr>metadata_json := Some (Json
              (\<lambda>k. case u k of None \<Rightarrow> m k | Some Undefined \<Rightarrow> None | Some (Defined v) \<Rightarrow> Some v))\<rparr>), True)"
  using assms read_metadata_Json[of files projectId d m]
  by (simp add: updateProjectMetadata_def write_metadata_def stringify_spread_parse)

lemma progress_or_empty_well_typed:
  "progress_well_typed m \<Longrightarrow>
     assign_property (progress_or_empty (JSON_parse m ''progress'')) k v =
       Inr (JObj ((progress_map m)(k \<mapsto> v)))"
  by (cases "m ''progress''"; cases "the (m ''progress'')")
     (auto simp: progress_well_typed_def JSON_parse_def progress_map_def)

lemma getProjectMetadata_Json:
  "files projectId = Some d \<Longrightarrow> metadata_json d = Some (Json m) \<Longrightarrow>
     getProjectMetadata files projectId = Some (JSON_parse m)"
  using read_metadata_Json[of files projectId d m] by (simp add: getProjectMetadata_def)

lemma updateProjectProgress_Json:
  assumes "files projectId = Some d" and "metadata_json d = Some (Json m)"
    and "progress_well_typed m"
  shows "updateProjectProgress files projectId k p =
           Inr (files(projectId \<mapsto> d\<lparr>metadata_json := Some (Json
                  (m(''progress'' \<mapsto> JObj ((progress_map m)(k \<mapsto> JNum p)))))\<rparr>), True)"
  using assms(1,2)
  by (simp add: updateProjectProgress_def getProjectMetadata_Json[of files projectId d m]
        progress_or_empty_well_typed[OF assms(3)]
        updateProjectMetadata_Json[of files projectId d m] fun_eq_iff)

text \<open>
  C2. For an existing project record (whose \<^verbatim>\<open>progress\<close> field has its declared type),
  a call of \<^verbatim>\<open>updateProjectProgress\<close> returns true, sets the progress entry of the process
  identifier to the given percentage, and changes nothing else: every other entry of the
  progress map, every other field of the record, every other file of the project
  directory and every other project stay as they were.
\<close>

theorem updateProjectProgress_sets_one_entry:
  assumes "files projectId = Some d" and "metadata_json d = Some (Json m)"
    and "progress_well_typed m"
  shows "\<exists>m'. updateProjectProgress files projectId k p =
                 Inr (files(projectId \<mapsto> d\<lparr>metadata_json := Some (Json m')\<rparr>), True)
            \<and> progress_map m' k = Some (JNum p)
            \<and> (\<forall>k'. k' \<noteq> k \<longrightarrow> progress_map m' k' = progress_map m k')
            \<and> (\<forall>f. f \<noteq> ''progress'' \<longrightarrow> m' f = m f)"
proof -
  let ?m' = "m(''progress'' \<mapsto> JObj ((progress_map m)(k \<mapsto> JNum p)))"
  have "updateProjectProgress files projectId k p =
          Inr (files(projectId \<mapsto> d\<lparr>metadata_json := Some (Json ?m')\<rparr>), True)"
    using assms by (rule updateProjectProgress_Json)
  moreover have "progress_map ?m' k = Some (JNum p)"
    by (simp add: progress_map_def)
  moreover have "\<forall>k'. k' \<noteq> k \<longrightarrow> progress_map ?m' k' = progress_map m k'"
    by (simp add: progress_map_def)
  moreover have "\<forall>f. f \<noteq> ''progress'' \<longrightarrow> ?m' f = m f"
    by simp
  ultimately show ?thesis by blast
qed

theorem updateProjectProgress_sets_one_entry_witness:
  "example_fs ''p1'' = Some example_dir
   \<and> metadata_json example_dir = Some (Json example_record)
   \<and> progress_well_typed example_record
   \<and> (\<exists>m'. updateProjectProgress example_fs ''p1'' ''a_audio'' 55 =
                 Inr (example_fs(''p1'' \<mapsto> example_dir\<lparr>metadata_json := Some (Json m')\<rparr>), True)
            \<and> progress_map m' ''a_audio'' = Some (JNum 55)
            \<and> (\<forall>k'. k' \<noteq> ''a_audio'' \<longrightarrow> progress_map m' k' = progress_map example_record k')
            \<and> (\<forall>f. f \<noteq> ''progress'' \<longrightarrow> m' f = example_record f))"
proof -
  have h1: "example_fs ''p1'' = Some example_dir"
    by (simp add: example_fs_def)
  have h2: "metadata_json example_dir = Some (Json example_record)"
    by (simp add: example_dir_def)
  have h3: "progress_well_typed example_record"
    by (simp add: progress_well_typed_def example_record_def)
  show ?thesis
    using h1 h2 h3
      updateProjectProgress_sets_one_entry[of example_fs "''p1''" example_dir example_record "''a_audio''" 55]
    by blast
qed

lemma updateProjectProgress_unreadable:
  "project_record files projectId = None \<Longrightarrow>
   updateProjectProgress files projectId processId percent = Inr (files, False)"
  by (auto simp: updateProjectProgress_def getProjectMetadata_def project_record_def
        existsSync_metadata_def read_metadata_def split: option.splits file_content.splits)

text \<open>
  C3. When the project has no readable metadata record (the file is missing, or the whole
  project directory is), \<^verbatim>\<open>updateProjectProgress\<close> returns false in the ordinary way, not
  by an exception, and the files are exactly as before.
\<close>

theorem updateProjectProgress_no_record:
  assumes "project_record files projectId = None"
  shows "updateProjectProgress files projectId processId percent = Inr (files, False)"
  using assms by (rule updateProjectProgress_unreadable)

theorem updateProjectProgress_no_record_witness:
  "project_record example_fs ''p2'' = None
   \<and> updateProjectProgress example_fs ''p2'' ''a_video'' 10 = Inr (example_fs, False)"
proof -
  have h: "project_record example_fs ''p2'' = None"
    by (simp add: project_record_def example_fs_def)
  show ?thesis
    using h updateProjectProgress_no_record[of example_fs "''p2''" "''a_video''" 10] by simp
qed

text \<open>
  C10, as the claim words it, promises that a call with an error argument stores that
  error. The guard \<^verbatim>\<open>if (error)\<close> treats the empty string like a missing argument: the call
  below passes \<^verbatim>\<open>''\<close> and the stored error message is removed, not set.
\<close>

theorem updateProjectStatus_empty_error_counterexample:
  "record_field example_fs ''p1'' ''error'' = Some (JStr ''old failure'')
   \<and> record_field (fst (updateProjectStatus example_fs ''p1'' MERGING_ERROR (Some ''''))) ''p1'' ''status''
        = Some (JStr ''merging_error'')
   \<and> record_field (fst (updateProjectStatus example_fs ''p1'' MERGING_ERROR (Some ''''))) ''p1'' ''error''
        = None"
  by (simp add: record_field_def project_record_def updateProjectStatus_def updateProjectMetadata_def
        existsSync_metadata_def read_metadata_def write_metadata_def JSON_stringify_def spread_def
        JSON_parse_def example_fs_def example_dir_def example_record_def map_add_def)

text \<open>
  C10, amended. For an existing project record, \<^verbatim>\<open>updateProjectStatus\<close> returns true and
  sets the status field. Called without an error argument, or with the empty string, it
  removes a stored error message; called with a non-empty error argument it stores that
  message. Every other field of the record, and everything else on disk, is unchanged.
\<close>

theorem updateProjectStatus_sets_status_and_error:
  assumes "files projectId = Some d" and "metadata_json d = Some (Json m)"
  shows "\<exists>m'. updateProjectStatus files projectId st err =
                 (files(projectId \<mapsto> d\<lparr>metadata_json := Some (Json m')\<rparr>), True)
            \<and> m' ''status'' = Some (JStr (status_string st))
            \<and> m' ''error'' = (case err of None \<Rightarrow> None
                                | Some e \<Rightarrow> if e = [] then None else Some (JStr e))
            \<and> (\<forall>f. f \<noteq> ''status'' \<and> f \<noteq> ''error'' \<longrightarrow> m' f = m f)"
  using assms
  by (cases err)
     (auto simp: updateProjectStatus_def Let_def updateProjectMetadata_Json[of files projectId d m])

theorem updateProjectStatus_sets_status_and_error_witness:
  "example_fs ''p1'' = Some example_dir
   \<and> metadata_json example_dir = Some (Json example_record)
   \<and> (\<exists>m'. updateProjectStatus example_fs ''p1'' MERGING_ERROR (Some ''FFmpeg not found'') =
                 (example_fs(''p1'' \<mapsto> example_dir\<lparr>metadata_json := Some (Json m')\<rparr>), True)
            \<and> m' ''status'' = Some (JStr ''merging_error'')
            \<and> m' ''error'' = Some (JStr ''FFmpeg not found'')
            \<and> (\<forall>f. f \<noteq> ''status'' \<and> f \<noteq> ''error'' \<longrightarrow> m' f = example_record f))"
proof -
  have h1: "example_fs ''p1'' = Some example_dir"
    by (simp add: example_fs_def)
  have h2: "metadata_json example_dir = Some (Json example_record)"
    by (simp add: example_dir_def)
  show ?thesis
    using h1 h2
      updateProjectStatus_sets_status_and_error[of example_fs "''p1''" example_dir example_record
        MERGING_ERROR "Some ''FFmpeg not found''"]
    by simp
qed

section \<open>Two writers on one record\<close>










section \<open>Preconditions of the stage-start routes\<close>

text \<open>
  C4. A project has its directory and its metadata file. When a source file of the
  download stage is missing, the merge route answers 400 at once, and when the merged
  video is missing, the split route answers 400 at once; in both cases every file,
  the project record with its status field included, is left as it was.
\<close>

theorem stage_start_precondition_failure:
  assumes "files projectId = Some d" and "metadata_json d \<noteq> None"
  shows "(\<not> (source_video d \<and> source_audio d) \<longrightarrow>
            POST_merge files projectId processId =
              (files, ErrorResponse ''Source files not found. Please run the download process first.'' 400))
       \<and> (\<not> processed_video d \<longrightarrow>
            POST_split files projectId processId =
              (files, ErrorResponse ''Processed video file not found. Please run the merge process first.'' 400))"
  using assms by (auto simp: POST_merge_def POST_split_def)

theorem stage_start_precondition_failure_witness:
  "example_fs ''p1'' = Some example_dir
   \<and> metadata_json example_dir \<noteq> None
   \<and> \<not> (source_video example_dir \<and> source_audio example_dir)
   \<and> POST_merge example_fs ''p1'' ''m1'' =
        (example_fs, ErrorResponse ''Source files not found. Please run the download process first.'' 400)
   \<and> \<not> processed_video example_dir
   \<and> POST_split example_fs ''p1'' ''s1'' =
        (example_fs, ErrorResponse ''Processed video file not found. Please run the merge process first.'' 400)"
proof -
  have h1: "example_fs ''p1'' = Some example_dir"
    by (simp add: example_fs_def)
  have h2: "metadata_json example_dir \<noteq> None"
    by (simp add: example_dir_def)
  have h3: "\<not> (source_video example_dir \<and> source_audio example_dir)"
    by (simp add: example_dir_def)
  have h4: "\<not> processed_video example_dir"
    by (simp add: example_dir_def)
  show ?thesis
    using h1 h2 h3 h4
      stage_start_precondition_failure[of example_fs "''p1''" example_dir "''m1''"]
      stage_start_precondition_failure[of example_fs "''p1''" example_dir "''s1''"]
    by simp
qed

section \<open>Trim range of the visual track\<close>

text \<open>
  C5. The end offset that \<^verbatim>\<open>downloadMedia\<close> passes to the download of the visual track is
  \<open>audioEndTime - audioStartTime + startTime\<close> when the audio end offset is not zero, in
  particular when no explicit video end offset was given; when the audio end offset is
  zero it is the explicit video \<open>endTime\<close>.
\<close>

theorem video_download_end_offset:
  "(audioEndTime metadata \<noteq> 0 \<longrightarrow>
      call_endTime (downloadMedia_video videoUrl videoPath processId metadata) =
        audioEndTime metadata - audioStartTime metadata + startTime metadata)
   \<and> (audioEndTime metadata = 0 \<longrightarrow>
      call_endTime (downloadMedia_video videoUrl videoPath processId metadata) = endTime metadata)"
  by (simp add: downloadMedia_video_def)

theorem video_download_end_offset_witness:
  "audioEndTime \<lparr>startTime = 10, endTime = 0, audioStartTime = 5, audioEndTime = 35\<rparr> \<noteq> 0
   \<and> call_endTime (downloadMedia_video ''v'' ''video.mp4'' ''d1''
         \<lparr>startTime = 10, endTime = 0, audioStartTime = 5, audioEndTime = 35\<rparr>) = 40
   \<and> audioEndTime \<lparr>startTime = 10, endTime = 90, audioStartTime = 5, audioEndTime = 0\<rparr> = 0
   \<and> call_endTime (downloadMedia_video ''v'' ''video.mp4'' ''d1''
         \<lparr>startTime = 10, endTime = 90, audioStartTime = 5, audioEndTime = 0\<rparr>) = 90"
  using video_download_end_offset[of "\<lparr>startTime = 10, endTime = 0, audioStartTime = 5, audioEndTime = 35\<rparr>"
          "''v''" "''video.mp4''" "''d1''"]
        video_download_end_offset[of "\<lparr>startTime = 10, endTime = 90, audioStartTime = 5, audioEndTime = 0\<rparr>"
          "''v''" "''video.mp4''" "''d1''"]
  by simp

section \<open>The split stage\<close>

lemma store_ok_updateProjectProgress:
  assumes "store_ok files projectId"
  shows "\<exists>files' b. updateProjectProgress files projectId k v = Inr (files', b) \<and> store_ok files' projectId"
proof (cases "project_record files projectId")
  case None
  then show ?thesis using assms updateProjectProgress_unreadable[of files projectId k v] by auto
next
  case (Some m)
  then obtain d where d: "files projectId = Some d" "metadata_json d = Some (Json m)"
    by (auto simp: project_record_def split: option.splits file_content.splits)
  have wt: "progress_well_typed m" using assms Some by (simp add: store_ok_def)
  show ?thesis
    using updateProjectProgress_Json[of files projectId d m k v] d wt
    by (auto simp: store_ok_def project_record_def progress_well_typed_def)
qed

lemma store_ok_report_progress:
  assumes "store_ok files projectId"
  shows "\<exists>files'. report_progress files projectId k v = Inr files' \<and> store_ok files' projectId"
  using store_ok_updateProjectProgress[OF assms, of k v] by (auto simp: report_progress_def)

lemma store_ok_report_progress_times:
  assumes "store_ok files projectId"
  shows "\<exists>files'. report_progress_times n files projectId k v = Inr files' \<and> store_ok files' projectId"
  using assms
proof (induction n arbitrary: files)
  case 0
  then show ?case by simp
next
  case (Suc n)
  from store_ok_report_progress[OF Suc.prems, of k v]
  obtain files1 where 1: "report_progress files projectId k v = Inr files1" "store_ok files1 projectId"
    by blast
  from Suc.IH[OF 1(2)] show ?case using 1(1) by simp
qed

lemma store_ok_updateProjectMetadata:
  assumes "store_ok files projectId" and "u ''progress'' = None"
  shows "store_ok (fst (updateProjectMetadata files projectId u)) projectId"
proof (cases "project_record files projectId")
  case None
  then show ?thesis using assms
    by (auto simp: updateProjectMetadata_def store_ok_def project_record_def existsSync_metadata_def
          read_metadata_def split: option.splits file_content.splits)
next
  case (Some m)
  then obtain d where d: "files projectId = Some d" "metadata_json d = Some (Json m)"
    by (auto simp: project_record_def split: option.splits file_content.splits)
  have wt: "progress_well_typed m" using assms Some by (simp add: store_ok_def)
  show ?thesis
    using updateProjectMetadata_Json[of files projectId d m u] d wt assms(2)
    by (auto simp: store_ok_def project_record_def progress_well_typed_def)
qed

lemma getMediaDuration_ok:
  assumes "store_ok files projectId" and "probe_exit_code run = 0" and "probe_output run = Some D"
  shows "\<exists>files'. getMediaDuration files run projectId probeId = (files', Inr D) \<and> store_ok files' projectId"
proof (cases "projectId \<noteq> [] \<and> probeId \<noteq> []")
  case False
  then show ?thesis using assms by (auto simp: getMediaDuration_def)
next
  case True
  from store_ok_report_progress[OF assms(1), of probeId 0]
  obtain f1 where 1: "report_progress files projectId probeId 0 = Inr f1" "store_ok f1 projectId" by blast
  from store_ok_report_progress_times[OF 1(2), of "stderr_chunks run" probeId 50]
  obtain f2 where 2: "report_progress_times (stderr_chunks run) f1 projectId probeId 50 = Inr f2"
    "store_ok f2 projectId" by blast
  from store_ok_report_progress[OF 2(2), of probeId 100]
  obtain f3 where 3: "report_progress f2 projectId probeId 100 = Inr f3" "store_ok f3 projectId" by blast
  show ?thesis using True 1 2 3 assms(2,3) by (simp add: getMediaDuration_def)
qed

lemma split_loop_ok:
  assumes "store_ok files projectId" and "\<forall>j. i \<le> j \<and> j < i + n \<longrightarrow> exit_code j = 0"
  shows "\<exists>files'. split_loop projectId processId D L cnt exit_code n i (files, cuts, segs) =
            (files', cuts @ map (cut_at D L) [i..<i + n], Inr (segs @ map (segment_at D L) [i..<i + n]))
          \<and> store_ok files' projectId"
  using assms
proof (induction n arbitrary: i files cuts segs)
  case 0
  then show ?case by simp
next
  case (Suc n)
  let ?p = "real_of_int (round (real i / real_of_int cnt * 100))"
  from store_ok_report_progress[OF Suc.prems(1), of processId ?p]
  obtain f1 where 1: "report_progress files projectId processId ?p = Inr f1" "store_ok f1 projectId"
    by blast
  let ?u = "[''currentSegment'' \<mapsto> Defined (JNum (real (i + 1))),
             ''totalSegments'' \<mapsto> Defined (JNum (real_of_int cnt))]"
  let ?f2 = "fst (updateProjectMetadata f1 projectId ?u)"
  have 2: "store_ok ?f2 projectId"
    by (rule store_ok_updateProjectMetadata[OF 1(2)]) simp
  have ex: "exit_code i = 0" using Suc.prems(2) by simp
  have rest: "\<forall>j. Suc i \<le> j \<and> j < Suc i + n \<longrightarrow> exit_code j = 0" using Suc.prems(2) by simp
  from Suc.IH[OF 2 rest, of "cuts @ [cut_at D L i]" "segs @ [segment_at D L i]"]
  obtain f' where 3: "split_loop projectId processId D L cnt exit_code n (Suc i)
        (?f2, cuts @ [cut_at D L i], segs @ [segment_at D L i]) =
      (f', (cuts @ [cut_at D L i]) @ map (cut_at D L) [Suc i..<Suc i + n],
       Inr ((segs @ [segment_at D L i]) @ map (segment_at D L) [Suc i..<Suc i + n]))"
    "store_ok f' projectId" by blast
  have up: "[i..<Suc (i + n)] = i # [Suc i..<Suc (i + n)]" by (simp add: upt_rec)
  show ?case
    using 1(1) ex 3 by (simp add: Let_def up del: upt_Suc)
qed

lemma sum_clipped_durations:
  fixes D :: real
  assumes "0 < D"
  shows "(\<Sum>i<nat \<lceil>D / 60\<rceil>. min 60 (D - real i * 60)) = D"
proof -
  define n where "n = nat \<lceil>D / 60\<rceil>"
  have c0: "0 < \<lceil>D / 60\<rceil>" using assms by simp
  then have npos: "0 < n" by (simp add: n_def)
  then obtain k where k: "n = Suc k" by (cases n) auto
  have rn: "real n = of_int \<lceil>D / 60\<rceil>" using c0 by (simp add: n_def)
  have "D / 60 \<le> real n" using le_of_int_ceiling[of "D / 60"] rn by simp
  then have up: "D \<le> real n * 60" by (simp add: field_simps)
  have lo: "real k * 60 < D"
  proof -
    have "of_int \<lceil>D / 60\<rceil> - 1 < D / 60" using ceiling_correct[of "D / 60"] by linarith
    then have "real n - 1 < D / 60" using rn by simp
    then show ?thesis using k by (simp add: field_simps)
  qed
  have full: "min 60 (D - real i * 60) = 60" if "i < k" for i
  proof -
    have "real (Suc i) \<le> real k" using that by simp
    then have "real (Suc i) * 60 \<le> real k * 60" by simp
    then have "60 \<le> D - real i * 60" using lo by simp
    then show ?thesis by simp
  qed
  have last: "min 60 (D - real k * 60) = D - real k * 60"
    using up k by simp
  have "(\<Sum>i<n. min 60 (D - real i * 60)) = (\<Sum>i<k. min 60 (D - real i * 60)) + min 60 (D - real k * 60)"
    by (simp add: k)
  also have "(\<Sum>i<k. min 60 (D - real i * 60)) = (\<Sum>i<k. 60)"
    by (rule sum.cong) (simp_all add: full)
  also have "\<dots> = real k * 60" by simp
  finally show ?thesis using last by (simp add: n_def)
qed


lemma splitVideoIntoSegments_ok:
  assumes "store_ok files projectId"
    and "\<not> not_found (ffmpeg tools)" and "\<not> not_found (ffprobe tools)"
    and "probe_exit_code run = 0" and "probe_output run = Some D"
    and "\<forall>i. exit_code i = 0"
  shows "\<exists>files'. splitVideoIntoSegments files L tools projectId processId probeId run exit_code =
           (files', map (cut_at D L) [0..<nat \<lceil>D / L\<rceil>], Inr (map (segment_at D L) [0..<nat \<lceil>D / L\<rceil>]))"
proof -
  have m: "store_ok (mkdirSync_recursive files projectId) projectId"
    using assms(1) by (simp add: store_ok_def project_record_mkdirSync_recursive)
  from getMediaDuration_ok[OF m assms(4,5), of probeId]
  obtain f1 where 1: "getMediaDuration (mkdirSync_recursive files projectId) run projectId probeId = (f1, Inr D)"
    "store_ok f1 projectId"
    by blast
  have ex: "\<forall>j. 0 \<le> j \<and> j < 0 + nat \<lceil>D / L\<rceil> \<longrightarrow> exit_code j = 0" using assms(6) by simp
  from split_loop_ok[OF 1(2) ex, of processId D L "\<lceil>D / L\<rceil>" "[]" "[]"]
  obtain f2 where 2: "split_loop projectId processId D L \<lceil>D / L\<rceil> exit_code (nat \<lceil>D / L\<rceil>) 0 (f1, [], []) =
      (f2, map (cut_at D L) [0..<nat \<lceil>D / L\<rceil>], Inr (map (segment_at D L) [0..<nat \<lceil>D / L\<rceil>]))"
    "store_ok f2 projectId" by auto
  from store_ok_report_progress[OF 2(2), of processId 100]
  obtain f3 where 3: "report_progress f2 projectId processId 100 = Inr f3" by blast
  show ?thesis
    using assms(2,3) 1(1) 2(1) 3 by (simp add: splitVideoIntoSegments_def Let_def)
qed

lemma lib_split_scenario:
  "map seg_duration (projr (lib_splitVideoIntoSegments 125 60 all_exit_zero)) = [60, 60, 5]"
  by (simp add: lib_splitVideoIntoSegments_def lib_segment_at_def all_exit_zero_def Let_def
        numeral_3_eq_3)

lemma lib_split_rounds:
  "map seg_duration (projr (lib_splitVideoIntoSegments (251 / 2) 60 all_exit_zero)) = [60, 60, 6]"
  by (simp add: lib_splitVideoIntoSegments_def lib_segment_at_def all_exit_zero_def Let_def
        numeral_3_eq_3 round_def)

text \<open>
  C6. The media tools are found, the probe reports a total duration \<open>D > 0\<close>, every run of
  the media tool exits with code 0, and the progress field of the project record has its
  declared type. Then \<^verbatim>\<open>splitVideoIntoSegments\<close>, called with the segment length of 60
  seconds, returns \<open>\<lceil>D / 60\<rceil>\<close> segments with the identifiers 1, 2, ... in order; the
  segment of index \<open>i\<close> (identifier \<open>i + 1\<close>) is cut at offset \<open>60 i\<close> with duration
  \<open>min 60 (D - 60 i)\<close>; every segment but the last has duration 60; the durations add
  up to \<open>D\<close>; and for \<open>D = 125\<close> the durations are 60, 60 and 5.
\<close>

theorem split_produces_clipped_segments:
  assumes "store_ok files projectId"
    and "\<not> not_found (ffmpeg tools)" and "\<not> not_found (ffprobe tools)"
    and "probe_exit_code run = 0" and "probe_output run = Some D" and "0 < D"
    and "\<forall>i. exit_code i = 0"
  shows "\<exists>files' cuts segments.
      splitVideoIntoSegments files 60 tools projectId processId probeId run exit_code =
        (files', cuts, Inr segments)
    \<and> length segments = nat \<lceil>D / 60\<rceil> \<and> length cuts = nat \<lceil>D / 60\<rceil>
    \<and> map seg_id segments = [1..<Suc (nat \<lceil>D / 60\<rceil>)]
    \<and> (\<forall>i < nat \<lceil>D / 60\<rceil>.
          seg_id (segments ! i) = i + 1
        \<and> cut_start (cuts ! i) = real i * 60
        \<and> cut_duration (cuts ! i) = min 60 (D - real i * 60)
        \<and> seg_duration (segments ! i) = min 60 (D - real i * 60)
        \<and> (i + 1 < nat \<lceil>D / 60\<rceil> \<longrightarrow> seg_duration (segments ! i) = 60))
    \<and> sum_list (map seg_duration segments) = D
    \<and> (D = 125 \<longrightarrow> map seg_duration segments = [60, 60, 5])"
proof -
  let ?n = "nat \<lceil>D / 60\<rceil>"
  let ?cuts = "map (cut_at D 60) [0..<?n]"
  let ?segs = "map (segment_at D 60) [0..<?n]"
  from splitVideoIntoSegments_ok[OF assms(1-5) assms(7), of 60 processId probeId]
  obtain files' where run: "splitVideoIntoSegments files 60 tools projectId processId probeId run exit_code =
      (files', ?cuts, Inr ?segs)" by blast
  have dur: "seg_duration (segment_at D 60 i) = min 60 (D - real i * 60)" for i
    by (simp add: segment_at_def cut_at_def Let_def)
  have ids: "map seg_id ?segs = [1..<Suc ?n]"
    by (simp add: segment_at_def map_Suc_upt comp_def del: upt_Suc)
  have full: "seg_duration (segment_at D 60 i) = 60" if "i + 1 < ?n" for i
  proof -
    have "real (i + 1) < real ?n" using that by linarith
    moreover have "real ?n = of_int \<lceil>D / 60\<rceil>" using that by simp
    moreover have "of_int \<lceil>D / 60\<rceil> - 1 < D / 60" using ceiling_correct[of "D / 60"] by linarith
    ultimately have "real (i + 1) \<le> real ?n - 1" "real ?n - 1 < D / 60"
      using that by (linarith, linarith)
    then have "real (i + 1) * 60 < D" by (simp add: field_simps)
    then show ?thesis by (simp add: dur)
  qed
  have each: "\<forall>i < ?n. seg_id (?segs ! i) = i + 1
        \<and> cut_start (?cuts ! i) = real i * 60
        \<and> cut_duration (?cuts ! i) = min 60 (D - real i * 60)
        \<and> seg_duration (?segs ! i) = min 60 (D - real i * 60)
        \<and> (i + 1 < ?n \<longrightarrow> seg_duration (?segs ! i) = 60)"
    using full by (simp add: segment_at_def cut_at_def Let_def)
  have "sum_list (map seg_duration ?segs) = (\<Sum>i<?n. min 60 (D - real i * 60))"
    by (simp add: comp_def dur interv_sum_list_conv_sum_set_nat atLeast0LessThan)
  then have total: "sum_list (map seg_duration ?segs) = D"
    using sum_clipped_durations[OF assms(6)] by simp
  have scen: "D = 125 \<longrightarrow> map seg_duration ?segs = [60, 60, 5]"
  proof
    assume D: "D = 125"
    have "nat \<lceil>(125::real) / 60\<rceil> = 3" by simp
    then show "map seg_duration ?segs = [60, 60, 5]"
      unfolding D by (simp add: segment_at_def cut_at_def Let_def upt_rec)
  qed
  have len: "length ?segs = ?n" "length ?cuts = ?n" by simp_all
  show ?thesis
    by (intro exI[of _ files'] exI[of _ ?cuts] exI[of _ ?segs] conjI)
       (rule run len ids each total scen)+
qed


theorem split_produces_clipped_segments_witness:
  "store_ok example_fs ''p1''
   \<and> \<not> not_found (ffmpeg example_tools) \<and> \<not> not_found (ffprobe example_tools)
   \<and> probe_exit_code example_probe = 0 \<and> probe_output example_probe = Some 125 \<and> (0::real) < 125
   \<and> (\<exists>files' cuts segments.
         splitVideoIntoSegments example_fs 60 example_tools ''p1'' ''s1'' ''probe1'' example_probe all_exit_zero =
           (files', cuts, Inr segments)
       \<and> length segments = 3
       \<and> map seg_id segments = [1, 2, 3]
       \<and> cut_start (cuts ! 2) = 120
       \<and> sum_list (map seg_duration segments) = 125
       \<and> map seg_duration segments = [60, 60, 5])"
proof -
  have h1: "store_ok example_fs ''p1''"
    by (simp add: store_ok_def project_record_def example_fs_def example_dir_def example_record_def
          progress_well_typed_def)
  have h2: "\<not> not_found (ffmpeg example_tools)" "\<not> not_found (ffprobe example_tools)"
    by (simp_all add: not_found_def example_tools_def)
  have h3: "probe_exit_code example_probe = 0" "probe_output example_probe = Some 125"
    by (simp_all add: example_probe_def)
  have h4: "\<forall>i. all_exit_zero i = 0" by (simp add: all_exit_zero_def)
  have n: "nat \<lceil>(125::real) / 60\<rceil> = 3" by simp
  have ids: "[1..<Suc 3] = [1, 2, 3]" by (simp add: upt_rec)
  from split_produces_clipped_segments[OF h1 h2 h3 _ h4, of "''s1''" "''probe1''"]
  obtain files' cuts segments where
    r: "splitVideoIntoSegments example_fs 60 example_tools ''p1'' ''s1'' ''probe1'' example_probe all_exit_zero =
           (files', cuts, Inr segments)"
      "length segments = 3" "map seg_id segments = [1, 2, 3]" "cut_start (cuts ! 2) = 120"
      "sum_list (map seg_duration segments) = 125" "map seg_duration segments = [60, 60, 5]"
    unfolding n ids by auto
  show ?thesis using h1 h2 h3 r by auto
qed

section \<open>Packing caption words into subtitle lines\<close>

lemma group_lines_finish:
  "group_lines captions =
     finish_lines (foldl pack_word ([], \<lparr>cl_start = 0, cl_end = 0, cl_text = [], wordCount = 0\<rparr>) captions)"
  by (simp add: group_lines_def finish_lines_def Let_def)

lemma raw_text_snoc: "raw_text (ws @ [w]) = raw_text ws @ t_text w @ '' ''"
  by (simp add: raw_text_def)

lemma raw_text_single: "raw_text [w] = t_text w @ '' ''"
  by (simp add: raw_text_def)

lemma closed_lines_snoc:
  "cur \<noteq> [] \<Longrightarrow>
   closed_lines (gs @ [cur]) s =
     closed_lines gs (t_start (hd cur)) @ [\<lparr>t_start = t_start (hd cur), t_end = s, t_text = trim (raw_text cur)\<rparr>]"
  by (induction gs "t_start (hd cur)" rule: closed_lines.induct) auto

lemma render_lines_snoc:
  "render_lines (gs @ [cur]) =
     closed_lines gs (t_start (hd cur)) @
       [\<lparr>t_start = t_start (hd cur), t_end = t_end (last cur), t_text = trim (raw_text cur)\<rparr>]"
  by (induction gs "t_start (hd cur)" rule: closed_lines.induct) auto

lemma pack_word_skip:
  assumes "wordCount cl = 0" and "cl_text cl = []" and "too_long w"
  shows "pack_word (lines, cl) w = (lines, cl\<lparr>cl_start := t_start w, cl_end := t_end w\<rparr>)"
  using assms by (simp add: pack_word_def too_long_def Let_def)

lemma pack_word_first:
  assumes "wordCount cl = 0" and "cl_text cl = []" and "\<not> too_long w"
  shows "pack_word ([], cl) w = state_of [] [w]"
  using assms by (simp add: pack_word_def too_long_def Let_def state_of_def raw_text_single)

lemma pack_word_state_of:
  assumes "cur \<noteq> []"
  shows "pack_word (state_of gs cur) w =
           (if overflows cur w then state_of (gs @ [cur]) [w] else state_of gs (cur @ [w]))"
  using assms
  by (simp add: pack_word_def state_of_def overflows_def Let_def closed_lines_snoc raw_text_snoc
        raw_text_single)

lemma finish_state_of:
  "cur \<noteq> [] \<Longrightarrow> finish_lines (state_of gs cur) = render_lines (gs @ [cur])"
  by (simp add: finish_lines_def state_of_def render_lines_snoc)

lemma foldl_pack_word_state_of:
  "cur \<noteq> [] \<Longrightarrow> finish_lines (foldl pack_word (state_of gs cur) ws) = render_lines (spec_pack gs cur ws)"
proof (induction ws arbitrary: gs cur)
  case Nil
  then show ?case by (simp add: finish_state_of)
next
  case (Cons w ws)
  show ?case
  proof (cases "overflows cur w")
    case True
    then show ?thesis using Cons.prems Cons.IH[of "[w]" "gs @ [cur]"]
      by (simp add: pack_word_state_of)
  next
    case False
    then show ?thesis using Cons.prems Cons.IH[of "cur @ [w]" gs]
      by (simp add: pack_word_state_of)
  qed
qed

lemma foldl_pack_word_skip:
  assumes "wordCount cl = 0" and "cl_text cl = []"
  shows "finish_lines (foldl pack_word ([], cl) ws) = render_lines (spec_pack [] [] (dropWhile too_long ws))"
  using assms
proof (induction ws arbitrary: cl)
  case Nil
  then show ?case by (simp add: finish_lines_def)
next
  case (Cons w ws)
  show ?case
  proof (cases "too_long w")
    case True
    then show ?thesis
      using Cons.prems Cons.IH[of "cl\<lparr>cl_start := t_start w, cl_end := t_end w\<rparr>"]
      by (simp add: pack_word_skip)
  next
    case False
    then show ?thesis
      using Cons.prems foldl_pack_word_state_of[of "[w]" "[]" ws]
      by (simp add: pack_word_first)
  qed
qed

lemma group_lines_spec_pack:
  "group_lines captions = render_lines (spec_pack [] [] (dropWhile too_long captions))"
  by (simp add: group_lines_finish foldl_pack_word_skip)


lemma greedy_snoc:
  "cur \<noteq> [] \<Longrightarrow> greedy (gs @ [cur]) \<Longrightarrow> overflows cur w \<Longrightarrow> greedy (gs @ [cur, [w]])"
  by (induction gs rule: greedy.induct) auto

lemma greedy_extend_last:
  "cur \<noteq> [] \<Longrightarrow> greedy (gs @ [cur]) \<Longrightarrow> greedy (gs @ [cur @ [w]])"
  by (induction gs rule: greedy.induct) auto

lemma within_limits_single: "within_limits [w]"
  by (simp add: within_limits_def)

lemma within_limits_extend:
  "within_limits cur \<Longrightarrow> \<not> overflows cur w \<Longrightarrow> within_limits (cur @ [w])"
  by (auto simp: within_limits_def overflows_def raw_text_snoc)

lemma spec_pack_invariant:
  assumes "cur \<noteq> []" and "\<forall>g \<in> set (gs @ [cur]). within_limits g" and "greedy (gs @ [cur])"
  shows "(\<forall>g \<in> set (spec_pack gs cur ws). within_limits g)
       \<and> greedy (spec_pack gs cur ws)
       \<and> concat (spec_pack gs cur ws) = concat gs @ cur @ ws"
  using assms
proof (induction ws arbitrary: gs cur)
  case Nil
  then show ?case by simp
next
  case (Cons w ws)
  show ?case
  proof (cases "overflows cur w")
    case True
    have 1: "\<forall>g \<in> set ((gs @ [cur]) @ [[w]]). within_limits g"
      using Cons.prems(2) by (simp add: within_limits_single)
    have 2: "greedy ((gs @ [cur]) @ [[w]])"
      using greedy_snoc[OF Cons.prems(1,3) True] by simp
    from Cons.IH[of "[w]" "gs @ [cur]", OF _ 1 2] True Cons.prems(1)
    show ?thesis by simp
  next
    case False
    have 1: "\<forall>g \<in> set (gs @ [cur @ [w]]). within_limits g"
      using Cons.prems(2) within_limits_extend[OF _ False] by simp
    have 2: "greedy (gs @ [cur @ [w]])"
      using greedy_extend_last[OF Cons.prems(1,3)] .
    from Cons.IH[of "cur @ [w]" gs, OF _ 1 2] False
    show ?thesis by simp
  qed
qed

lemma spec_pack_properties:
  "(\<forall>g \<in> set (spec_pack [] [] ws). within_limits g)
   \<and> greedy (spec_pack [] [] ws)
   \<and> concat (spec_pack [] [] ws) = ws"
proof (cases ws)
  case Nil
  then show ?thesis by simp
next
  case (Cons w ws')
  have "spec_pack [] [] ws = spec_pack [] [w] ws'" using Cons by simp
  moreover have "(\<forall>g \<in> set (spec_pack [] [w] ws'). within_limits g)
       \<and> greedy (spec_pack [] [w] ws')
       \<and> concat (spec_pack [] [w] ws') = concat [] @ [w] @ ws'"
    by (rule spec_pack_invariant) (simp_all add: within_limits_single)
  ultimately show ?thesis using Cons by simp
qed

lemma hd_render_lines: "t_start (hd (render_lines (g # gs))) = t_start (hd g)"
  by (cases gs) auto

lemma render_lines_Cons_not_Nil: "render_lines (g # gs) \<noteq> []"
  by (cases gs) auto

lemma adjacent_Cons:
  "ls \<noteq> [] \<Longrightarrow> adjacent (l # ls) = (t_end l = t_start (hd ls) \<and> adjacent ls)"
  by (cases ls) auto

lemma monotone_intervals_Cons:
  "ls \<noteq> [] \<Longrightarrow> monotone_intervals (l # ls) =
     (t_start l \<le> t_end l \<and> t_end l \<le> t_start (hd ls) \<and> monotone_intervals ls)"
  by (cases ls) auto

lemma adjacent_render_lines: "adjacent (render_lines gs)"
  by (induction gs rule: render_lines.induct)
     (auto simp: adjacent_Cons render_lines_Cons_not_Nil hd_render_lines)

lemma render_lines_eq_Nil: "render_lines gs = [] \<longleftrightarrow> gs = []"
  by (cases gs rule: render_lines.cases) auto

lemma last_render_lines:
  "gs \<noteq> [] \<Longrightarrow> t_end (last (render_lines gs)) = t_end (last (last gs))"
  by (induction gs rule: render_lines.induct) (auto simp: render_lines_eq_Nil)

lemma monotone_render_lines:
  assumes "\<forall>g \<in> set gs. g \<noteq> []" and "sorted (map t_start (concat gs))"
    and "\<forall>w \<in> set (concat gs). t_start w \<le> t_end w"
  shows "monotone_intervals (render_lines gs)"
  using assms
proof (induction gs rule: render_lines.induct)
  case 1
  then show ?case by simp
next
  case (2 g)
  then have g: "g \<noteq> []" by simp
  have "t_start (hd g) \<le> t_start (last g)"
    using 2(2) g by (cases g) (auto simp: sorted_append)
  moreover have "t_start (last g) \<le> t_end (last g)" using 2(3) g by simp
  ultimately show ?case by simp
next
  case (3 g g' gs)
  then have g: "g \<noteq> []" and g': "g' \<noteq> []" by simp_all
  have hd_in: "hd g' \<in> set g'" using g' by simp
  have le: "t_start (hd g) \<le> t_start (hd g')"
    using 3(3) g hd_in by (cases g) (auto simp: sorted_append)
  have rest: "sorted (map t_start (concat (g' # gs)))"
    using 3(3) by (simp add: sorted_append)
  have "monotone_intervals (render_lines (g' # gs))"
    using 3(1)[OF _ rest] 3(2,4) by simp
  then show ?case using le
    by (simp add: monotone_intervals_Cons render_lines_Cons_not_Nil hd_render_lines)
qed


text \<open>
  C7, as the claim words it, promises for every input that no line is longer than 20
  characters and that the line intervals never decrease. A word that overflows the
  current line starts the next line whatever its own length: the second line below has 25
  characters. And the times are copied from the words as they come: when the second word
  starts before the first, the first line ends before it starts.
\<close>

theorem subtitle_line_limits_counterexample:
  "group_lines [\<lparr>t_start = 0, t_end = 1, t_text = ''a''\<rparr>,
                \<lparr>t_start = 1, t_end = 2, t_text = ''abcdefghijklmnopqrstuvwxy''\<rparr>]
     = [\<lparr>t_start = 0, t_end = 1, t_text = ''a''\<rparr>,
        \<lparr>t_start = 1, t_end = 2, t_text = ''abcdefghijklmnopqrstuvwxy''\<rparr>]
   \<and> length ''abcdefghijklmnopqrstuvwxy'' = 25
   \<and> group_lines [\<lparr>t_start = 5, t_end = 6, t_text = ''aaaaaaaaaaaaaaaaaaa''\<rparr>,
                  \<lparr>t_start = 1, t_end = 2, t_text = ''b''\<rparr>]
     = [\<lparr>t_start = 5, t_end = 1, t_text = ''aaaaaaaaaaaaaaaaaaa''\<rparr>,
        \<lparr>t_start = 1, t_end = 2, t_text = ''b''\<rparr>]"
  by (simp add: group_lines_def pack_word_def Let_def trim_def is_space_def)

lemma last_concat_groups:
  "gs \<noteq> [] \<Longrightarrow> last gs \<noteq> [] \<Longrightarrow> last (concat gs) = last (last gs)"
  by (induction gs) (auto simp: last_append)

text \<open>
  C7, amended. For every sequence of captions, the lines produced are the lines of a
  greedy grouping of consecutive words of the input (of the whole input when its first
  word is shorter than 20 characters): every line has one to five words; a line of two
  or more words has at most 20 characters, each word counted with the space after it;
  a line was closed only when the next word did not fit; every closed line ends at the
  start time of the word that begins the next line, and the final line ends at the end
  time of the last word. When the words start in non-decreasing order and no word ends
  before it starts, every line ends no earlier than it starts and no later than the next
  line starts.
\<close>

theorem subtitle_line_packing:
  "\<exists>dropped groups.
      captions = dropped @ concat groups
    \<and> ((captions = [] \<or> length (t_text (hd captions)) < 20) \<longrightarrow> dropped = [])
    \<and> group_lines captions = render_lines groups
    \<and> (\<forall>g \<in> set groups. within_limits g)
    \<and> greedy groups
    \<and> adjacent (group_lines captions)
    \<and> (group_lines captions \<noteq> [] \<longrightarrow> t_end (last (group_lines captions)) = t_end (last captions))
    \<and> (sorted (map t_start captions) \<and> (\<forall>w \<in> set captions. t_start w \<le> t_end w)
          \<longrightarrow> monotone_intervals (group_lines captions))"
proof -
  let ?dropped = "takeWhile too_long captions"
  let ?kept = "dropWhile too_long captions"
  let ?groups = "spec_pack [] [] ?kept"
  have lines: "group_lines captions = render_lines ?groups"
    by (rule group_lines_spec_pack)
  have props: "(\<forall>g \<in> set ?groups. within_limits g)" "greedy ?groups" "concat ?groups = ?kept"
    using spec_pack_properties[of ?kept] by simp_all
  have split: "captions = ?dropped @ concat ?groups"
    by (simp add: props(3))
  have nodrop: "(captions = [] \<or> length (t_text (hd captions)) < 20) \<longrightarrow> ?dropped = []"
    by (cases captions) (auto simp: too_long_def)
  have nonempty: "\<forall>g \<in> set ?groups. g \<noteq> []"
    using props(1) by (auto simp: within_limits_def)
  have adj: "adjacent (group_lines captions)"
    unfolding lines by (rule adjacent_render_lines)
  have fin: "group_lines captions \<noteq> [] \<longrightarrow> t_end (last (group_lines captions)) = t_end (last captions)"
  proof
    assume "group_lines captions \<noteq> []"
    then have g: "?groups \<noteq> []" by (simp add: lines render_lines_eq_Nil)
    then have lg: "last ?groups \<noteq> []" using nonempty by simp
    have "concat ?groups \<noteq> []" using g lg by (metis concat_eq_Nil_conv last_in_set)
    then have "last captions = last (concat ?groups)"
      using split by (metis last_appendR)
    also have "\<dots> = last (last ?groups)" by (rule last_concat_groups[OF g lg])
    finally show "t_end (last (group_lines captions)) = t_end (last captions)"
      by (simp add: lines last_render_lines[OF g])
  qed
  have mono: "sorted (map t_start captions) \<and> (\<forall>w \<in> set captions. t_start w \<le> t_end w)
          \<longrightarrow> monotone_intervals (group_lines captions)"
  proof
    assume a: "sorted (map t_start captions) \<and> (\<forall>w \<in> set captions. t_start w \<le> t_end w)"
    have "sorted (map t_start (?dropped @ ?kept))" using a by simp
    then have s: "sorted (map t_start (concat ?groups))"
      unfolding props(3) map_append sorted_append by simp
    have "set ?kept \<subseteq> set captions" by (rule set_dropWhileD[THEN subsetI])
    then have w: "\<forall>w \<in> set (concat ?groups). t_start w \<le> t_end w"
      unfolding props(3) using a by blast
    show "monotone_intervals (group_lines captions)"
      unfolding lines by (rule monotone_render_lines[OF nonempty s w])
  qed
  show ?thesis
    by (intro exI[of _ ?dropped] exI[of _ ?groups] conjI)
       (rule split nodrop lines props(1) props(2) adj fin mono)+
qed


theorem subtitle_line_packing_witness:
  "length (t_text (hd example_captions)) < 20
   \<and> sorted (map t_start example_captions)
   \<and> list_all (\<lambda>w. t_start w \<le> t_end w) example_captions
   \<and> group_lines example_captions \<noteq> []
   \<and> (\<exists>groups. example_captions = concat groups
         \<and> group_lines example_captions = render_lines groups
         \<and> (\<forall>g \<in> set groups. within_limits g)
         \<and> greedy groups)
   \<and> adjacent (group_lines example_captions)
   \<and> t_end (last (group_lines example_captions)) = 5
   \<and> monotone_intervals (group_lines example_captions)"
proof -
  have h1: "length (t_text (hd example_captions)) < 20"
    by (simp add: example_captions_def)
  have h2: "sorted (map t_start example_captions)"
    by (simp add: example_captions_def)
  have h3: "\<forall>w \<in> set example_captions. t_start w \<le> t_end w"
    by (simp add: example_captions_def)
  have h4: "group_lines example_captions \<noteq> []"
    by (simp add: example_captions_def group_lines_def pack_word_def Let_def)
  have h5: "t_end (last example_captions) = 5"
    by (simp add: example_captions_def)
  from subtitle_line_packing[of example_captions]
  obtain dropped groups where
    r: "example_captions = dropped @ concat groups"
       "(example_captions = [] \<or> length (t_text (hd example_captions)) < 20) \<longrightarrow> dropped = []"
       "group_lines example_captions = render_lines groups"
       "\<forall>g \<in> set groups. within_limits g" "greedy groups"
       "adjacent (group_lines example_captions)"
       "group_lines example_captions \<noteq> [] \<longrightarrow>
          t_end (last (group_lines example_captions)) = t_end (last example_captions)"
       "sorted (map t_start example_captions) \<and> (\<forall>w \<in> set example_captions. t_start w \<le> t_end w)
          \<longrightarrow> monotone_intervals (group_lines example_captions)"
    by blast
  have d: "dropped = []" using r(2) h1 by simp
  have ex: "\<exists>groups. example_captions = concat groups
         \<and> group_lines example_captions = render_lines groups
         \<and> (\<forall>g \<in> set groups. within_limits g)
         \<and> greedy groups"
    using r(1,3,4,5) d by auto
  have h3': "list_all (\<lambda>w. t_start w \<le> t_end w) example_captions"
    using h3 by (simp add: list_all_iff)
  show ?thesis
    using h1 h2 h3 h3' h4 h5 ex r(6,7,8) by simp
qed

section \<open>Failure of one segment's caption pipeline\<close>

lemma stringify_parse [simp]: "JSON_stringify (JSON_parse m) = m"
  by (auto simp: JSON_stringify_def JSON_parse_def fun_eq_iff split: option.splits)

lemma stringify_parse_upd [simp]:
  "JSON_stringify ((JSON_parse m)(k \<mapsto> Defined v)) = m(k \<mapsto> v)"
  by (auto simp: JSON_stringify_def JSON_parse_def fun_eq_iff split: option.splits)

lemma read_segments_Some:
  "segment_list files projectId = Some segs \<Longrightarrow> read_segments files projectId = Inr (map JSON_parse segs)"
  by (auto simp: segment_list_def read_segments_def split: option.splits file_content.splits)

lemma read_segments_None:
  "segment_list files projectId = None \<Longrightarrow> \<exists>e. read_segments files projectId = Inl e"
  by (auto simp: segment_list_def read_segments_def split: option.splits file_content.splits)

lemma segment_list_write:
  "segment_list files projectId = Some segs \<Longrightarrow>
   segment_list (write_segments files projectId xs) projectId = Some (map JSON_stringify xs)"
  by (auto simp: segment_list_def write_segments_def split: option.splits)

lemma same_but_segments_refl: "same_but_segments files files projectId"
  by (simp add: same_but_segments_def)

lemma same_but_segments_trans:
  "same_but_segments f g projectId \<Longrightarrow> same_but_segments g h projectId \<Longrightarrow> same_but_segments f h projectId"
  by (simp add: same_but_segments_def)

lemma same_but_segments_write:
  "same_but_segments files (write_segments files projectId xs) projectId"
  by (simp add: same_but_segments_def write_segments_def without_segments_def split: option.splits)

lemma seg_frame_refl: "seg_frame i segs segs"
  by (simp add: seg_frame_def)

lemma seg_frame_trans: "seg_frame i a b \<Longrightarrow> seg_frame i b c \<Longrightarrow> seg_frame i a c"
  by (simp add: seg_frame_def)

lemma frame_refl: "frame projectId segmentIndex files files"
  by (auto simp: frame_def same_but_segments_refl seg_frame_refl split: option.splits)

lemma frame_trans:
  assumes "frame projectId idx f g" and "frame projectId idx g h"
  shows "frame projectId idx f h"
proof -
  have s: "same_but_segments f h projectId"
    using assms same_but_segments_trans by (auto simp: frame_def)
  show ?thesis
  proof (cases "segment_list f projectId")
    case None
    then show ?thesis using assms by (auto simp: frame_def)
  next
    case (Some segs)
    note segs = this
    show ?thesis
    proof (cases idx)
      case None
      then show ?thesis using assms segs by (auto simp: frame_def)
    next
      case (Some i)
      with segs assms(1)
      obtain segs' where 1: "segment_list g projectId = Some segs'" "seg_frame i segs segs'"
        by (auto simp: frame_def)
      with Some assms(2)
      obtain segs'' where 2: "segment_list h projectId = Some segs''" "seg_frame i segs' segs''"
        by (auto simp: frame_def)
      show ?thesis
        using s 1 2 Some segs seg_frame_trans[OF 1(2) 2(2)]
        by (auto simp: frame_def)
    qed
  qed
qed

lemma frame_valid:
  "frame projectId idx f g \<Longrightarrow> valid_index idx f projectId \<Longrightarrow> valid_index idx g projectId"
  by (auto simp: frame_def valid_index_def seg_frame_def split: option.splits)

lemma framed_step:
  assumes "framed projectId idx f0 f" and "frame projectId idx f g"
  shows "framed projectId idx f0 g"
  using assms frame_trans[of projectId idx f0 f g] frame_valid[of projectId idx f g]
  by (simp add: framed_def)

lemma frame_updateSegmentProgress:
  assumes "valid_index idx files projectId"
  shows "frame projectId idx files (updateSegmentProgress files projectId idx p)"
proof (cases idx)
  case None
  then show ?thesis using frame_refl by (simp add: updateSegmentProgress_def)
next
  case (Some i)
  note idx = this
  show ?thesis
  proof (cases "segment_list files projectId")
    case None
    then show ?thesis using idx read_segments_None[OF None] frame_refl
      by (auto simp: updateSegmentProgress_def)
  next
    case (Some segs)
    have i: "i < length segs" using assms Some idx by (simp add: valid_index_def)
    show ?thesis
    proof (cases "(JSON_parse (segs ! i)) ''captioningStatus'' = Some (Defined (JStr ''in-progress''))")
      case False
      then show ?thesis
        using Some idx i read_segments_Some[OF Some] frame_refl
        by (simp add: updateSegmentProgress_def)
    next
      case True
      let ?new = "(map JSON_parse segs)[i := (JSON_parse (segs ! i))(''captioningProgress'' \<mapsto> Defined (JNum (min p 100)))]"
      have upd: "updateSegmentProgress files projectId idx p = write_segments files projectId ?new"
        using True Some idx i read_segments_Some[OF Some]
        by (simp add: updateSegmentProgress_def)
      have st: "map JSON_stringify ?new = segs[i := (segs ! i)(''captioningProgress'' \<mapsto> JNum (min p 100))]"
        using i by (simp add: map_update comp_def)
      have "seg_frame i segs (map JSON_stringify ?new)"
        unfolding st using i by (auto simp: seg_frame_def nth_list_update)
      then show ?thesis
        unfolding upd using Some idx i segment_list_write[OF Some, of ?new]
        by (auto simp: frame_def same_but_segments_write)
    qed
  qed
qed

lemma framed_updateSegmentProgress:
  "framed projectId idx f0 f \<Longrightarrow> framed projectId idx f0 (updateSegmentProgress f projectId idx p)"
  using framed_step[of projectId idx f0 f] frame_updateSegmentProgress[of idx f projectId p]
  by (simp add: framed_def)

lemma framed_report_phase:
  "framed projectId idx f0 f \<Longrightarrow> framed projectId idx f0 (report_phase f projectId idx a b reports)"
  unfolding report_phase_def
  by (induction reports arbitrary: f) (simp_all add: framed_updateSegmentProgress)

lemma write_spread_at_index:
  assumes "segment_list f projectId = Some segs" and "i < length segs"
  shows "segment_list (write_segments f projectId
            (assign_index (map JSON_parse segs) i (spread (JSON_parse (segs ! i)) u))) projectId =
         Some (segs[i := (\<lambda>k. case u k of None \<Rightarrow> (segs ! i) k | Some Undefined \<Rightarrow> None
                                | Some (Defined v) \<Rightarrow> Some v)])"
  using assms
  by (simp add: segment_list_write[OF assms(1)] assign_index_def map_update comp_def
        stringify_spread_parse)

lemma frame_write_spread:
  assumes "segment_list f projectId = Some segs" and "i < length segs" and "u ''id'' = None"
  shows "frame projectId (Some i) f (write_segments f projectId
            (assign_index (map JSON_parse segs) i (spread (JSON_parse (segs ! i)) u)))"
proof -
  let ?x = "\<lambda>k. case u k of None \<Rightarrow> (segs ! i) k | Some Undefined \<Rightarrow> None | Some (Defined v) \<Rightarrow> Some v"
  have "seg_frame i segs (segs[i := ?x])"
    using assms(2,3) by (auto simp: seg_frame_def nth_list_update)
  then show ?thesis
    using assms(1) write_spread_at_index[OF assms(1,2), of u]
    by (simp add: frame_def same_but_segments_write)
qed

lemma framed_finish_segment:
  assumes "framed projectId idx f0 f"
  shows "framed projectId idx f0 (fst (finish_segment f projectId segment_id idx run))"
proof -
  let ?f10 = "updateSegmentProgress f projectId idx 100"
  have 10: "framed projectId idx f0 ?f10" using assms by (rule framed_updateSegmentProgress)
  show ?thesis
  proof (cases "segment_list ?f10 projectId")
    case None
    then show ?thesis using 10 read_segments_None[OF None] by (auto simp: finish_segment_def Let_def)
  next
    case (Some segs)
    show ?thesis
    proof (cases idx)
      case None
      then show ?thesis using 10 read_segments_Some[OF Some] by (simp add: finish_segment_def Let_def)
    next
      case (Some i)
      have i: "i < length segs"
        using 10 Some \<open>segment_list ?f10 projectId = Some segs\<close> by (simp add: framed_def valid_index_def)
      let ?u = "[''captioningStatus'' \<mapsto> Defined (JStr ''completed''),
                 ''captioningCompletedAt'' \<mapsto> Defined (JStr (now run)),
                 ''captioningProgress'' \<mapsto> Defined (JNum 100),
                 ''subtitle'' \<mapsto> string_or_undefined (generated_subtitle run),
                 ''captionedFilename'' \<mapsto>
                    Defined (JStr (''captioned_segment_'' @ show_code \<lfloor>segment_id\<rfloor> @ ''.mp4''))]"
      have fr: "frame projectId (Some i) ?f10 (write_segments ?f10 projectId
            (assign_index (map JSON_parse segs) i (spread (JSON_parse (segs ! i)) ?u)))"
        by (rule frame_write_spread[OF \<open>segment_list ?f10 projectId = Some segs\<close> i]) simp
      have "fst (finish_segment f projectId segment_id idx run) =
              write_segments ?f10 projectId
                (assign_index (map JSON_parse segs) i (spread (JSON_parse (segs ! i)) ?u))"
        using Some i read_segments_Some[OF \<open>segment_list ?f10 projectId = Some segs\<close>]
        by (simp add: finish_segment_def Let_def)
      then show ?thesis using framed_step[OF 10] fr Some by simp
    qed
  qed
qed

lemma framed_overlay_phase:
  assumes "framed projectId idx f0 f"
  shows "framed projectId idx f0 (fst (overlay_phase f projectId segment_id idx run))"
proof -
  let ?f8 = "report_phase f projectId idx 80 95 (overlay_reports run)"
  let ?f9 = "updateSegmentProgress ?f8 projectId idx 95"
  have 8: "framed projectId idx f0 ?f8" using assms by (rule framed_report_phase)
  have 9: "framed projectId idx f0 ?f9" using 8 by (rule framed_updateSegmentProgress)
  have fin: "framed projectId idx f0 (fst (finish_segment ?f9 projectId segment_id idx run))"
    using 9 by (rule framed_finish_segment)
  show ?thesis
    using assms 8 9 fin
    by (auto simp: overlay_phase_def Let_def split: sum.splits option.splits)
qed

lemma framed_burn_phase:
  assumes "framed projectId idx f0 f"
  shows "framed projectId idx f0 (fst (burn_phase f projectId segment_id idx run))"
proof -
  let ?f4 = "updateSegmentProgress f projectId idx 45"
  let ?f5 = "updateSegmentProgress ?f4 projectId idx 50"
  let ?f6 = "report_phase ?f5 projectId idx 50 80 (burn_reports run)"
  let ?f7 = "updateSegmentProgress ?f6 projectId idx 80"
  have 4: "framed projectId idx f0 ?f4" using assms by (rule framed_updateSegmentProgress)
  have 5: "framed projectId idx f0 ?f5" using 4 by (rule framed_updateSegmentProgress)
  have 6: "framed projectId idx f0 ?f6" using 5 by (rule framed_report_phase)
  have 7: "framed projectId idx f0 ?f7" using 6 by (rule framed_updateSegmentProgress)
  have ov: "framed projectId idx f0 (fst (overlay_phase ?f7 projectId segment_id idx run))"
    using 7 by (rule framed_overlay_phase)
  show ?thesis
    using 6 ov by (auto simp: burn_phase_def Let_def split: option.splits)
qed

lemma findIndex_Some:
  "findIndex p xs = Some i \<Longrightarrow> i < length xs \<and> p (xs ! i)"
  by (induction xs arbitrary: i) (auto split: if_splits)

lemma findIndex_cong:
  "length xs = length ys \<Longrightarrow> \<forall>j < length xs. p (xs ! j) = q (ys ! j) \<Longrightarrow> findIndex p xs = findIndex q ys"
proof (induction xs ys rule: list_induct2)
  case Nil
  then show ?case by simp
next
  case (Cons x xs y ys)
  have "p x = q y" using Cons.prems by (auto dest: spec[of _ 0])
  moreover have "\<forall>j < length xs. p (xs ! j) = q (ys ! j)" using Cons.prems by (auto dest: spec[of _ "Suc j" for j])
  ultimately show ?case using Cons.IH by simp
qed

lemma findIndex_seg_frame:
  assumes "seg_frame i segs segs'"
  shows "findIndex (has_id sid) (map JSON_parse segs') = findIndex (has_id sid) (map JSON_parse segs)"
  by (rule findIndex_cong) (use assms in \<open>auto simp: seg_frame_def has_id_def JSON_parse_def\<close>)

lemma framed_captionSegment_try:
  assumes "segment_list files projectId = Some segs"
  shows "framed projectId (findIndex (has_id segment_id) (map JSON_parse segs)) files
           (fst (captionSegment_try files projectId segment_id run))"
proof -
  let ?idx = "findIndex (has_id segment_id) (map JSON_parse segs)"
  have v: "valid_index ?idx files projectId"
    using assms findIndex_Some[of "has_id segment_id" "map JSON_parse segs"]
    by (auto simp: valid_index_def split: option.splits)
  have 0: "framed projectId ?idx files files" using v frame_refl by (simp add: framed_def)
  let ?f1 = "updateSegmentProgress files projectId ?idx 0"
  let ?f2 = "updateSegmentProgress ?f1 projectId ?idx 5"
  let ?f3 = "report_phase ?f2 projectId ?idx 5 45 (whisper_reports run)"
  have 1: "framed projectId ?idx files ?f1" using 0 by (rule framed_updateSegmentProgress)
  have 2: "framed projectId ?idx files ?f2" using 1 by (rule framed_updateSegmentProgress)
  have 3: "framed projectId ?idx files ?f3" using 2 by (rule framed_report_phase)
  have b: "framed projectId ?idx files (fst (burn_phase ?f3 projectId segment_id ?idx run))"
    using 3 by (rule framed_burn_phase)
  have mk: "mkdirSync_recursive files projectId = files"
    using assms by (auto simp: segment_list_def mkdirSync_recursive_def split: option.splits)
  show ?thesis
    using 0 1 3 b read_segments_Some[OF assms]
    by (auto simp: captionSegment_try_def mk Let_def split: option.splits sum.splits)
qed

lemma project_record_via_metadata:
  "project_record files projectId =
     (case map_option metadata_json (files projectId) of Some (Some (Json m)) \<Rightarrow> Some m | _ \<Rightarrow> None)"
  by (auto simp: project_record_def split: option.splits file_content.splits)

lemma metadata_without_segments:
  "map_option metadata_json (map_option without_segments x) = map_option metadata_json x"
  by (cases x) (simp_all add: without_segments_def)

lemma same_but_segments_metadata:
  assumes "same_but_segments files files' projectId"
  shows "map_option metadata_json (files' projectId) = map_option metadata_json (files projectId)"
proof -
  have "map_option without_segments (files' projectId) = map_option without_segments (files projectId)"
    using assms by (simp add: same_but_segments_def)
  then have "map_option metadata_json (map_option without_segments (files' projectId)) =
             map_option metadata_json (map_option without_segments (files projectId))"
    by simp
  then show ?thesis by (simp only: metadata_without_segments)
qed

lemma same_but_segments_record_field:
  "same_but_segments files files' projectId \<Longrightarrow>
   record_field files' projectId f = record_field files projectId f"
  by (simp add: record_field_def project_record_via_metadata same_but_segments_metadata)

text \<open>
  C8. The segment list of the project exists and holds the segment, at index \<open>i\<close>. When
  the pipeline of that segment fails, in whatever phase, then afterwards every file but
  \<^verbatim>\<open>segments.json\<close> of this project is unchanged, the project record and its status field
  included; the segment list has the same length and every other segment is as before;
  and the segment itself has the status \<^verbatim>\<open>failed\<close>, the message of the error and the
  time of the failure.
\<close>

theorem caption_failure_is_local:
  assumes "segment_list files projectId = Some segs"
      and "findIndex (has_id segment_id) (map JSON_parse segs) = Some i"
      and "captionSegment files projectId segment_id run = (files', Some e)"
  shows "same_but_segments files files' projectId
       \<and> record_field files' projectId ''status'' = record_field files projectId ''status''
       \<and> (\<exists>segs'. segment_list files' projectId = Some segs' \<and> length segs' = length segs
            \<and> (\<forall>j < length segs. j \<noteq> i \<longrightarrow> segs' ! j = segs ! j)
            \<and> (segs' ! i) ''captioningStatus'' = Some (JStr ''failed'')
            \<and> (segs' ! i) ''captioningError'' = Some (JStr (message e))
            \<and> (segs' ! i) ''captioningFailedAt'' = Some (JStr (now run)))"
proof -
  let ?f = "fst (captionSegment_try files projectId segment_id run)"
  have files': "files' = captionSegment_catch ?f projectId segment_id e (now run)"
    using assms(3) by (auto simp: captionSegment_def split: prod.splits sum.splits)
  have fr: "framed projectId (Some i) files ?f"
    using framed_captionSegment_try[OF assms(1), of segment_id run] assms(2) by simp
  then obtain segs1 where 1: "segment_list ?f projectId = Some segs1" "seg_frame i segs segs1"
    using assms(1) by (auto simp: framed_def frame_def)
  have idx: "findIndex (has_id segment_id) (map JSON_parse segs1) = Some i"
    using findIndex_seg_frame[OF 1(2)] assms(2) by simp
  have i: "i < length segs1"
    using findIndex_Some[OF idx] by simp
  let ?u = "[''captioningStatus'' \<mapsto> Defined (JStr ''failed''),
             ''captioningFailedAt'' \<mapsto> Defined (JStr (now run)),
             ''captioningError'' \<mapsto> Defined (JStr (message e))]"
  let ?w = "write_segments ?f projectId
              (assign_index (map JSON_parse segs1) i (spread (JSON_parse (segs1 ! i)) ?u))"
  have catch: "files' = ?w"
    unfolding files' using read_segments_Some[OF 1(1)] idx i
    by (simp add: captionSegment_catch_def)
  have fr2: "frame projectId (Some i) ?f ?w"
    by (rule frame_write_spread[OF 1(1) i]) simp
  have total: "frame projectId (Some i) files files'"
    unfolding catch using fr fr2 frame_trans[of projectId "Some i" files ?f ?w]
    by (simp add: framed_def)
  let ?x = "\<lambda>k. case ?u k of None \<Rightarrow> (segs1 ! i) k | Some Undefined \<Rightarrow> None | Some (Defined v) \<Rightarrow> Some v"
  have sl: "segment_list files' projectId = Some (segs1[i := ?x])"
    unfolding catch by (rule write_spread_at_index[OF 1(1) i])
  have same: "same_but_segments files files' projectId"
    using total by (simp add: frame_def)
  have others: "\<forall>j < length segs. j \<noteq> i \<longrightarrow> (segs1[i := ?x]) ! j = segs ! j"
    using 1(2) by (simp add: seg_frame_def)
  have len: "length (segs1[i := ?x]) = length segs"
    using 1(2) by (simp add: seg_frame_def)
  have fields: "((segs1[i := ?x]) ! i) ''captioningStatus'' = Some (JStr ''failed'')"
      "((segs1[i := ?x]) ! i) ''captioningError'' = Some (JStr (message e))"
      "((segs1[i := ?x]) ! i) ''captioningFailedAt'' = Some (JStr (now run))"
    using i by simp_all
  show ?thesis
    using same same_but_segments_record_field[OF same, of "''status''"] sl len others fields
    by blast
qed

theorem caption_failure_is_local_witness:
  "segment_list example_captioning_fs ''p1'' = Some example_segments
   \<and> findIndex (has_id 1) (map JSON_parse example_segments) = Some 0
   \<and> snd (captionSegment example_captioning_fs ''p1'' 1 failing_run) = Some (Error ''Whisper exited with code 1'')
   \<and> same_but_segments example_captioning_fs (fst (captionSegment example_captioning_fs ''p1'' 1 failing_run)) ''p1''
   \<and> record_field (fst (captionSegment example_captioning_fs ''p1'' 1 failing_run)) ''p1'' ''status''
        = Some (JStr ''merging'')
   \<and> (\<exists>segs'. segment_list (fst (captionSegment example_captioning_fs ''p1'' 1 failing_run)) ''p1'' = Some segs'
         \<and> length segs' = 2
         \<and> segs' ! 1 = example_segments ! 1
         \<and> (segs' ! 0) ''captioningStatus'' = Some (JStr ''failed'')
         \<and> (segs' ! 0) ''captioningError'' = Some (JStr ''Whisper exited with code 1'')
         \<and> (segs' ! 0) ''captioningFailedAt'' = Some (JStr ''2025-01-01T00:00:00.000Z''))"
proof -
  let ?r = "captionSegment example_captioning_fs ''p1'' 1 failing_run"
  have h1: "segment_list example_captioning_fs ''p1'' = Some example_segments"
    by (simp add: segment_list_def example_captioning_fs_def)
  have h2: "findIndex (has_id 1) (map JSON_parse example_segments) = Some 0"
    by (simp add: example_segments_def has_id_def JSON_parse_def)
  have "snd (captionSegment_try example_captioning_fs ''p1'' 1 failing_run) = Inl (Error ''Whisper exited with code 1'')"
    using read_segments_Some[OF h1]
    by (simp add: captionSegment_try_def failing_run_def example_tools_def not_found_def Let_def
          mkdirSync_recursive_def example_captioning_fs_def)
  then have h3: "snd ?r = Some (Error ''Whisper exited with code 1'')"
    by (auto simp: captionSegment_def split: prod.splits sum.splits)
  then have h3': "?r = (fst ?r, Some (Error ''Whisper exited with code 1''))"
    by (metis prod.collapse)
  have st: "record_field example_captioning_fs ''p1'' ''status'' = Some (JStr ''merging'')"
    by (simp add: record_field_def project_record_def example_captioning_fs_def example_dir_def
          example_record_def)
  have len: "length example_segments = 2" by (simp add: example_segments_def)
  have nw: "now failing_run = ''2025-01-01T00:00:00.000Z''" by (simp add: failing_run_def)
  from caption_failure_is_local[OF h1 h2 h3']
  show ?thesis
    using h1 h2 h3 st len nw by auto
qed

section \<open>Progress values written by the stages\<close>

text \<open>
  Every stage reports its progress through \<^verbatim>\<open>updateProjectProgress\<close>, which stores the
  number it is given. The lemmas of this section follow the values that the duration
  probes, the split loop and the caption pipeline write last, and then the download
  stage.
\<close>

lemma tracked_obtain:
  assumes "tracked files projectId"
  obtains d m where "files projectId = Some d" "metadata_json d = Some (Json m)" "progress_well_typed m"
  using assms
  by (auto simp: tracked_def project_record_def split: option.splits file_content.splits)

lemma tracked_updateProjectProgress:
  assumes "tracked files projectId"
  shows "\<exists>files'. updateProjectProgress files projectId k v = Inr (files', True)
           \<and> tracked files' projectId
           \<and> progress_entry files' projectId k = Some (JNum v)"
proof -
  from assms obtain d m where
    d: "files projectId = Some d" "metadata_json d = Some (Json m)" "progress_well_typed m"
    by (rule tracked_obtain)
  show ?thesis
    using updateProjectProgress_Json[of files projectId d m k v] d
    by (simp add: tracked_def project_record_def progress_well_typed_def progress_entry_def progress_map_def)
qed

lemma tracked_report_progress:
  assumes "tracked files projectId"
  shows "\<exists>files'. report_progress files projectId k v = Inr files'
           \<and> tracked files' projectId
           \<and> progress_entry files' projectId k = Some (JNum v)"
  using tracked_updateProjectProgress[OF assms, of k v] by (auto simp: report_progress_def)

lemma tracked_updateProjectMetadata:
  assumes "tracked files projectId" and "u ''progress'' = None"
  shows "tracked (fst (updateProjectMetadata files projectId u)) projectId
       \<and> progress_entry (fst (updateProjectMetadata files projectId u)) projectId k =
           progress_entry files projectId k"
proof -
  from assms(1) obtain d m where
    d: "files projectId = Some d" "metadata_json d = Some (Json m)" "progress_well_typed m"
    by (rule tracked_obtain)
  show ?thesis
    using updateProjectMetadata_Json[of files projectId d m u] d assms(2)
    by (simp add: tracked_def project_record_def progress_well_typed_def progress_entry_def progress_map_def)
qed

lemma tracked_report_progress_times:
  assumes "tracked files projectId"
  shows "\<exists>files'. report_progress_times n files projectId k v = Inr files' \<and> tracked files' projectId"
  using assms
proof (induction n arbitrary: files)
  case 0
  then show ?case by simp
next
  case (Suc n)
  from tracked_report_progress[OF Suc.prems, of k v]
  obtain f1 where 1: "report_progress files projectId k v = Inr f1" "tracked f1 projectId" by blast
  from Suc.IH[OF 1(2)] show ?case using 1(1) by simp
qed

lemma probe_ends_at_100:
  assumes "tracked files projectId" and "projectId \<noteq> []" and "probeId \<noteq> []"
  shows "progress_entry (fst (getMediaDuration files run projectId probeId)) projectId probeId = Some (JNum 100)"
proof -
  from tracked_report_progress[OF assms(1), of probeId 0]
  obtain f1 where 1: "report_progress files projectId probeId 0 = Inr f1" "tracked f1 projectId" by blast
  from tracked_report_progress_times[OF 1(2), of "stderr_chunks run" probeId 50]
  obtain f2 where 2: "report_progress_times (stderr_chunks run) f1 projectId probeId 50 = Inr f2"
    "tracked f2 projectId" by blast
  from tracked_report_progress[OF 2(2), of probeId 100]
  obtain f3 where 3: "report_progress f2 projectId probeId 100 = Inr f3"
    "progress_entry f3 projectId probeId = Some (JNum 100)" by blast
  show ?thesis
    using assms(2,3) 1(1) 2(1) 3 by (auto simp: getMediaDuration_def split: option.splits)
qed

lemma updateSegmentProgress_stores_min:
  assumes "segment_list files projectId = Some segs" and "i < length segs"
    and "(segs ! i) ''captioningStatus'' = Some (JStr ''in-progress'')"
  shows "captioning_progress (updateSegmentProgress files projectId (Some i) p) projectId i =
           Some (JNum (min p 100))"
proof -
  have st: "(JSON_parse (segs ! i)) ''captioningStatus'' = Some (Defined (JStr ''in-progress''))"
    using assms(3) by (simp add: JSON_parse_def)
  let ?new = "(map JSON_parse segs)[i := (JSON_parse (segs ! i))(''captioningProgress'' \<mapsto> Defined (JNum (min p 100)))]"
  have upd: "updateSegmentProgress files projectId (Some i) p = write_segments files projectId ?new"
    using st assms(1,2) read_segments_Some[OF assms(1)] by (simp add: updateSegmentProgress_def)
  show ?thesis
    unfolding upd captioning_progress_def segment_list_write[OF assms(1)]
    using assms(2) by (simp add: map_update comp_def)
qed

lemma phase_progress_bounds:
  assumes "0 \<le> p" and "p \<le> 100" and "0 \<le> a" and "a \<le> b" and "b \<le> 100"
  shows "a \<le> phase_progress a b p \<and> phase_progress a b p \<le> b"
proof -
  have "0 \<le> (p / 100) * (b - a)" using assms by simp
  moreover have "(p / 100) * (b - a) \<le> 1 * (b - a)"
    using assms by (intro mult_right_mono) simp_all
  ultimately show ?thesis by (simp add: phase_progress_def)
qed


lemma framed_segment_list:
  assumes "framed projectId (Some i) f0 f" and "segment_list f0 projectId = Some segs"
  obtains segs1 where "segment_list f projectId = Some segs1" "i < length segs1"
  using assms by (auto simp: framed_def frame_def valid_index_def)

lemma finish_segment_completes:
  assumes "framed projectId (Some i) f0 f" and "segment_list f0 projectId = Some segs"
  shows "snd (finish_segment f projectId sid (Some i) run) = Inr ()
       \<and> captioning_progress (fst (finish_segment f projectId sid (Some i) run)) projectId i = Some (JNum 100)
       \<and> captioning_status (fst (finish_segment f projectId sid (Some i) run)) projectId i
            = Some (JStr ''completed'')"
proof -
  let ?f10 = "updateSegmentProgress f projectId (Some i) 100"
  have 10: "framed projectId (Some i) f0 ?f10" using assms(1) by (rule framed_updateSegmentProgress)
  from framed_segment_list[OF 10 assms(2)]
  obtain segs1 where 1: "segment_list ?f10 projectId = Some segs1" "i < length segs1" by blast
  let ?u = "[''captioningStatus'' \<mapsto> Defined (JStr ''completed''),
             ''captioningCompletedAt'' \<mapsto> Defined (JStr (now run)),
             ''captioningProgress'' \<mapsto> Defined (JNum 100),
             ''subtitle'' \<mapsto> string_or_undefined (generated_subtitle run),
             ''captionedFilename'' \<mapsto>
                Defined (JStr (''captioned_segment_'' @ show_code \<lfloor>sid\<rfloor> @ ''.mp4''))]"
  have eq: "finish_segment f projectId sid (Some i) run =
          (write_segments ?f10 projectId
             (assign_index (map JSON_parse segs1) i (spread (JSON_parse (segs1 ! i)) ?u)), Inr ())"
    using 1 read_segments_Some[OF 1(1)] by (simp add: finish_segment_def Let_def)
  show ?thesis
    unfolding eq fst_conv snd_conv captioning_progress_def captioning_status_def
      write_spread_at_index[OF 1]
    using 1(2) by simp
qed

lemma same_but_segments_read_metadata:
  assumes "same_but_segments files files' projectId"
  shows "read_metadata files' projectId = read_metadata files projectId"
proof -
  have "map_option metadata_json (files' projectId) = map_option metadata_json (files projectId)"
    using assms by (rule same_but_segments_metadata)
  then show ?thesis
    by (cases "files projectId"; cases "files' projectId") (auto simp: read_metadata_def)
qed

lemma framed_read_metadata:
  "framed projectId idx f0 f \<Longrightarrow> read_metadata f projectId = read_metadata f0 projectId"
  by (simp add: framed_def frame_def same_but_segments_read_metadata)

lemma overlay_phase_result:
  assumes "framed projectId (Some i) f0 f" and "segment_list f0 projectId = Some segs"
    and "snd (overlay_phase f projectId sid (Some i) run) = Inr ()
         \<or> (read_metadata f0 projectId = Inr md \<and> overlay run = None \<and> final_file_ok run \<and> copy_file run = None)"
  shows "snd (overlay_phase f projectId sid (Some i) run) = Inr ()
       \<and> captioning_progress (fst (overlay_phase f projectId sid (Some i) run)) projectId i = Some (JNum 100)
       \<and> captioning_status (fst (overlay_phase f projectId sid (Some i) run)) projectId i
            = Some (JStr ''completed'')"
proof -
  let ?f8 = "report_phase f projectId (Some i) 80 95 (overlay_reports run)"
  let ?f9 = "updateSegmentProgress ?f8 projectId (Some i) 95"
  have 9: "framed projectId (Some i) f0 ?f9"
    using assms(1) by (intro framed_updateSegmentProgress framed_report_phase)
  have rm: "read_metadata f projectId = read_metadata f0 projectId"
    using assms(1) by (rule framed_read_metadata)
  have "overlay_phase f projectId sid (Some i) run = finish_segment ?f9 projectId sid (Some i) run"
    using assms(3) rm
    by (auto simp: overlay_phase_def Let_def split: sum.splits option.splits if_splits)
  then show ?thesis using finish_segment_completes[OF 9 assms(2), of sid run] by simp
qed

lemma burn_phase_result:
  assumes "framed projectId (Some i) f0 f" and "segment_list f0 projectId = Some segs"
    and "snd (burn_phase f projectId sid (Some i) run) = Inr ()
         \<or> (burn run = None \<and> captioned_file_ok run
             \<and> read_metadata f0 projectId = Inr md \<and> overlay run = None \<and> final_file_ok run \<and> copy_file run = None)"
  shows "snd (burn_phase f projectId sid (Some i) run) = Inr ()
       \<and> captioning_progress (fst (burn_phase f projectId sid (Some i) run)) projectId i = Some (JNum 100)
       \<and> captioning_status (fst (burn_phase f projectId sid (Some i) run)) projectId i
            = Some (JStr ''completed'')"
proof -
  let ?f4 = "updateSegmentProgress f projectId (Some i) 45"
  let ?f5 = "updateSegmentProgress ?f4 projectId (Some i) 50"
  let ?f6 = "report_phase ?f5 projectId (Some i) 50 80 (burn_reports run)"
  let ?f7 = "updateSegmentProgress ?f6 projectId (Some i) 80"
  have 7: "framed projectId (Some i) f0 ?f7"
    using assms(1) by (intro framed_updateSegmentProgress framed_report_phase)
  have eq: "burn_phase f projectId sid (Some i) run = overlay_phase ?f7 projectId sid (Some i) run"
    using assms(3) by (auto simp: burn_phase_def Let_def split: option.splits if_splits)
  have "snd (overlay_phase ?f7 projectId sid (Some i) run) = Inr ()
         \<or> (read_metadata f0 projectId = Inr md \<and> overlay run = None \<and> final_file_ok run \<and> copy_file run = None)"
    using assms(3) eq by auto
  from overlay_phase_result[OF 7 assms(2) this] show ?thesis unfolding eq .
qed

lemma captionSegment_try_result:
  assumes "segment_list files projectId = Some segs"
    and "findIndex (has_id sid) (map JSON_parse segs) = Some i"
    and "snd (captionSegment_try files projectId sid run) = Inr ()
         \<or> (\<not> not_found (ffmpeg (found_tools run)) \<and> \<not> not_found (ffprobe (found_tools run))
             \<and> extract_audio run = None \<and> whisper run = Inr captions
             \<and> burn run = None \<and> captioned_file_ok run
             \<and> read_metadata files projectId = Inr md \<and> overlay run = None \<and> final_file_ok run
             \<and> copy_file run = None)"
  shows "snd (captionSegment_try files projectId sid run) = Inr ()
       \<and> captioning_progress (fst (captionSegment_try files projectId sid run)) projectId i = Some (JNum 100)
       \<and> captioning_status (fst (captionSegment_try files projectId sid run)) projectId i
            = Some (JStr ''completed'')"
proof -
  have v: "valid_index (Some i) files projectId"
    using assms(1) findIndex_Some[OF assms(2)] by (simp add: valid_index_def)
  have 0: "framed projectId (Some i) files files" using v frame_refl by (simp add: framed_def)
  let ?f1 = "updateSegmentProgress files projectId (Some i) 0"
  let ?f2 = "updateSegmentProgress ?f1 projectId (Some i) 5"
  let ?f3 = "report_phase ?f2 projectId (Some i) 5 45 (whisper_reports run)"
  have 3: "framed projectId (Some i) files ?f3"
    using 0 by (intro framed_updateSegmentProgress framed_report_phase)
  have mk: "mkdirSync_recursive files projectId = files"
    using assms(1) by (auto simp: segment_list_def mkdirSync_recursive_def split: option.splits)
  have eq: "captionSegment_try files projectId sid run = burn_phase ?f3 projectId sid (Some i) run"
    using assms(2,3) read_segments_Some[OF assms(1)]
    by (auto simp: captionSegment_try_def mk Let_def split: option.splits sum.splits if_splits)
  have "snd (burn_phase ?f3 projectId sid (Some i) run) = Inr ()
         \<or> (burn run = None \<and> captioned_file_ok run
             \<and> read_metadata files projectId = Inr md \<and> overlay run = None \<and> final_file_ok run \<and> copy_file run = None)"
    using assms(3) eq by auto
  from burn_phase_result[OF 3 assms(1) this] show ?thesis unfolding eq .
qed

lemma caption_success_ends_at_100:
  assumes "segment_list files projectId = Some segs"
    and "findIndex (has_id sid) (map JSON_parse segs) = Some i"
    and "captionSegment files projectId sid run = (files', None)"
  shows "captioning_progress files' projectId i = Some (JNum 100)
       \<and> captioning_status files' projectId i = Some (JStr ''completed'')"
proof -
  have t: "captionSegment_try files projectId sid run = (files', Inr ())"
    using assms(3) by (auto simp: captionSegment_def split: prod.splits sum.splits)
  then have "snd (captionSegment_try files projectId sid run) = Inr ()" by simp
  from captionSegment_try_result[OF assms(1,2) disjI1, OF this] t
  show ?thesis by simp
qed

lemma captionSegment_completes:
  assumes "segment_list files projectId = Some segs"
    and "findIndex (has_id sid) (map JSON_parse segs) = Some i"
    and "\<not> not_found (ffmpeg (found_tools run))" and "\<not> not_found (ffprobe (found_tools run))"
    and "extract_audio run = None" and "whisper run = Inr captions"
    and "burn run = None" and "captioned_file_ok run"
    and "read_metadata files projectId = Inr md" and "overlay run = None" and "final_file_ok run"
    and "copy_file run = None"
  shows "snd (captionSegment files projectId sid run) = None"
proof -
  have "snd (captionSegment_try files projectId sid run) = Inr ()"
    using captionSegment_try_result[OF assms(1,2) disjI2, of run captions md] assms(3-) by simp
  then show ?thesis by (auto simp: captionSegment_def split: prod.splits sum.splits)
qed


lemma tracked_getMediaDuration:
  assumes "tracked files projectId"
  shows "tracked (fst (getMediaDuration files run projectId probeId)) projectId"
proof (cases "projectId \<noteq> [] \<and> probeId \<noteq> []")
  case False
  then show ?thesis using assms by (auto simp: getMediaDuration_def split: option.splits)
next
  case True
  from tracked_report_progress[OF assms, of probeId 0]
  obtain f1 where 1: "report_progress files projectId probeId 0 = Inr f1" "tracked f1 projectId" by blast
  from tracked_report_progress_times[OF 1(2), of "stderr_chunks run" probeId 50]
  obtain f2 where 2: "report_progress_times (stderr_chunks run) f1 projectId probeId 50 = Inr f2"
    "tracked f2 projectId" by blast
  from tracked_report_progress[OF 2(2), of probeId 100]
  obtain f3 where 3: "report_progress f2 projectId probeId 100 = Inr f3" "tracked f3 projectId" by blast
  show ?thesis
    using True 1(1) 2(1) 3 by (auto simp: getMediaDuration_def split: option.splits)
qed

lemma tracked_split_loop:
  assumes "tracked files projectId"
  shows "tracked (fst (split_loop projectId processId D L cnt exit_code n i (files, cuts, segs))) projectId"
  using assms
proof (induction n arbitrary: i files cuts segs)
  case 0
  then show ?case by simp
next
  case (Suc n)
  let ?p = "real_of_int (round (real i / real_of_int cnt * 100))"
  from tracked_report_progress[OF Suc.prems, of processId ?p]
  obtain f1 where 1: "report_progress files projectId processId ?p = Inr f1" "tracked f1 projectId"
    by blast
  let ?u = "[''currentSegment'' \<mapsto> Defined (JNum (real (i + 1))),
             ''totalSegments'' \<mapsto> Defined (JNum (real_of_int cnt))]"
  let ?f2 = "fst (updateProjectMetadata f1 projectId ?u)"
  have 2: "tracked ?f2 projectId"
    using tracked_updateProjectMetadata[OF 1(2), of ?u] by simp
  show ?case
    using 1(1) 2 Suc.IH[OF 2] by (simp add: Let_def)
qed

lemma split_success_ends_at_100:
  assumes "tracked files projectId"
    and "splitVideoIntoSegments files L tools projectId processId probeId run exit_code =
           (files', cuts, Inr segments)"
  shows "progress_entry files' projectId processId = Some (JNum 100)"
proof -
  let ?g = "getMediaDuration (mkdirSync_recursive files projectId) run projectId probeId"
  have "tracked (mkdirSync_recursive files projectId) projectId"
    using assms(1) by (simp add: tracked_def project_record_mkdirSync_recursive)
  then have g: "tracked (fst ?g) projectId" by (rule tracked_getMediaDuration)
  from assms(2) obtain D where D: "?g = (fst ?g, Inr D)"
    by (cases ?g) (auto simp: splitVideoIntoSegments_def split: if_splits sum.splits)
  let ?l = "split_loop projectId processId D L \<lceil>D / L\<rceil> exit_code (nat \<lceil>D / L\<rceil>) 0 (fst ?g, [], [])"
  have l: "tracked (fst ?l) projectId" using g by (rule tracked_split_loop)
  from tracked_report_progress[OF l, of processId 100]
  obtain f3 where 3: "report_progress (fst ?l) projectId processId 100 = Inr f3" "tracked f3 projectId"
    "progress_entry f3 projectId processId = Some (JNum 100)" by blast
  let ?u = "[''currentSegment'' \<mapsto> Defined (JNum (real_of_int \<lceil>D / L\<rceil>)),
             ''totalSegments'' \<mapsto> Defined (JNum (real_of_int \<lceil>D / L\<rceil>))]"
  have "files' = fst (updateProjectMetadata f3 projectId ?u)"
    using assms(2) 3(1)
    by (subst (asm) splitVideoIntoSegments_def, subst (asm) D)
       (auto simp: Let_def split: if_splits sum.splits prod.splits)
  then show ?thesis
    using tracked_updateProjectMetadata[OF 3(2), of ?u processId] 3(3) by simp
qed

subsection \<open>The download stage\<close>

text \<open>
  The handlers of a download job write the progress of the job's own identifier only:
  the parsed percentage as it is, and 100 when the job has succeeded.
\<close>

lemma job_processId_of_call:
  "job_processId processId VideoJob = call_processId (downloadMedia_video videoUrl videoPath processId offsets)"
  "job_processId processId AudioJob = call_processId (downloadMedia_audio audioUrl audioPath processId offsets)"
  by (simp_all add: downloadMedia_video_def downloadMedia_audio_def)

lemma download_percentage_is_stored:
  assumes "tracked files projectId"
  shows "\<exists>files'. on_child_event projectId k path (Percentage p) files s = Inr (files', s)
           \<and> progress_entry files' projectId k = Some (JNum p)"
  using tracked_report_progress[OF assms, of k p] by auto

lemma download_close_stores_100:
  assumes "tracked files projectId" and "0 < fileSize"
  shows "\<exists>files'. on_child_event projectId k path (Closed 0 (Some fileSize)) files s
                     = Inr (files', resolve s (Success path fileSize))
           \<and> progress_entry files' projectId k = Some (JNum 100)"
  using tracked_report_progress[OF assms(1), of k 100] assms(2) by auto

lemmas store_defs = progress_entry_def project_record_def progress_map_def record_field_def
        report_progress_def updateProjectProgress_def updateProjectMetadata_def getProjectMetadata_def
        existsSync_metadata_def read_metadata_def write_metadata_def JSON_stringify_def spread_def
        JSON_parse_def map_add_def mkdirSync_recursive_def

text \<open>A percentage above 100 in the output of the tool is stored as it is.\<close>

lemma download_percentage_above_100:
  "progress_entry
     (fst (run_downloads ''p1'' ''d1'' [(VideoJob, Percentage 40), (VideoJob, Percentage 150)]
             (fst (downloadYouTubeVideo started_download ''p1'' ''d1_video''))
             (snd (downloadYouTubeVideo started_download ''p1'' ''d1_video''))
             (snd (downloadYouTubeVideo started_download ''p1'' ''d1_video''))))
     ''p1'' ''d1_video'' = Some (JNum 150)"
  by (simp add: downloadYouTubeVideo_def output_file_def
       started_download_def POST_download_def example_request_def store_defs Let_def or_zero_def)

text \<open>
  No step of \<^verbatim>\<open>downloadMedia\<close> writes the progress of the stage's own identifier. The
  identifiers of the two probes are fresh, so they differ from it.
\<close>

lemma report_progress_other_entry:
  assumes "tracked files projectId" and "k \<noteq> k'"
  shows "\<exists>files'. report_progress files projectId k v = Inr files' \<and> tracked files' projectId
           \<and> progress_entry files' projectId k' = progress_entry files projectId k'"
proof -
  from assms(1) obtain d m where
    d: "files projectId = Some d" "metadata_json d = Some (Json m)" "progress_well_typed m"
    by (rule tracked_obtain)
  show ?thesis
    using updateProjectProgress_Json[of files projectId d m k v] d assms(2)
    by (simp add: report_progress_def tracked_def project_record_def progress_well_typed_def
          progress_entry_def progress_map_def)
qed

lemma tracked_write_metadata:
  assumes "tracked files projectId" and "read_metadata files projectId = Inr metadata"
    and "u ''progress'' = None"
  shows "tracked (write_metadata files projectId (metadata ++ u)) projectId
       \<and> progress_entry (write_metadata files projectId (metadata ++ u)) projectId k =
           progress_entry files projectId k"
proof -
  from assms(1) obtain d m where
    d: "files projectId = Some d" "metadata_json d = Some (Json m)" "progress_well_typed m"
    by (rule tracked_obtain)
  have "write_metadata files projectId (metadata ++ u) = fst (updateProjectMetadata files projectId u)"
    using assms(2) read_metadata_Json[of files projectId d m] d
    by (simp add: updateProjectMetadata_def spread_def)
  then show ?thesis using tracked_updateProjectMetadata[of files projectId u k] assms(1,3) by simp
qed

lemma tracked_output_file:
  "tracked (output_file files projectId j ev) projectId = tracked files projectId
   \<and> progress_entry (output_file files projectId j ev) projectId k = progress_entry files projectId k"
  by (auto simp: output_file_def tracked_def progress_entry_def project_record_def
      split: child_event.splits option.splits job.splits)

lemma on_child_event_other_entry:
  assumes "tracked files projectId" and "k \<noteq> k'"
  shows "\<exists>files' s'. on_child_event projectId k path ev files s = Inr (files', s')
           \<and> tracked files' projectId
           \<and> progress_entry files' projectId k' = progress_entry files projectId k'"
proof (cases ev)
  case (Percentage p)
  then show ?thesis using report_progress_other_entry[OF assms, of p] by auto
next
  case (Closed code sz)
  then show ?thesis using report_progress_other_entry[OF assms, of 100] assms(1)
    by (auto split: option.splits)
qed (use assms(1) in auto)

lemma run_downloads_other_entry:
  assumes "tracked files projectId"
  shows "\<exists>files' v' a'. run_downloads projectId processId evs files v a = (files', Inr (v', a'))
           \<and> tracked files' projectId
           \<and> progress_entry files' projectId processId = progress_entry files projectId processId"
  using assms
proof (induction evs arbitrary: files v a)
  case Nil
  then show ?case by simp
next
  case (Cons jev evs)
  obtain j ev where jev: "jev = (j, ev)" by (cases jev)
  let ?f = "output_file files projectId j ev"
  have t: "tracked ?f projectId" and e: "progress_entry ?f projectId processId = progress_entry files projectId processId"
    using Cons.prems tracked_output_file[of files projectId j ev processId] by simp_all
  have ne: "job_processId processId j \<noteq> processId" by (cases j) simp_all
  show ?case
  proof (cases j)
    case VideoJob
    show ?thesis
    proof (cases "attached v")
      case False
      then show ?thesis using Cons.IH[OF Cons.prems, of v a] jev VideoJob by simp
    next
      case True
      from on_child_event_other_entry[OF t ne, of "job_outputPath projectId j" ev v]
      obtain f1 v1 where 1: "on_child_event projectId (job_processId processId j) (job_outputPath projectId j) ev ?f v = Inr (f1, v1)"
        "tracked f1 projectId" "progress_entry f1 projectId processId = progress_entry ?f projectId processId"
        by blast
      from Cons.IH[OF 1(2), of v1 a] show ?thesis using 1 e jev VideoJob True by auto
    qed
  next
    case AudioJob
    show ?thesis
    proof (cases "attached a")
      case False
      then show ?thesis using Cons.IH[OF Cons.prems, of v a] jev AudioJob by simp
    next
      case True
      from on_child_event_other_entry[OF t ne, of "job_outputPath projectId j" ev a]
      obtain f1 a1 where 1: "on_child_event projectId (job_processId processId j) (job_outputPath projectId j) ev ?f a = Inr (f1, a1)"
        "tracked f1 projectId" "progress_entry f1 projectId processId = progress_entry ?f projectId processId"
        by blast
      from Cons.IH[OF 1(2), of v a1] show ?thesis using 1 e jev AudioJob True by auto
    qed
  qed
qed


lemma start_probe_other_entry:
  assumes "tracked files projectId" and "k \<noteq> k'"
  shows "tracked (fst (start_probe files projectId k)) projectId
       \<and> progress_entry (fst (start_probe files projectId k)) projectId k' = progress_entry files projectId k'"
  using report_progress_other_entry[OF assms, of 0] assms(1)
  by (auto simp: start_probe_def)

lemma on_probe_event_other_entry:
  assumes "tracked files projectId" and "k \<noteq> k'"
  shows "\<exists>files' s'. on_probe_event projectId k ev files s = Inr (files', s')
           \<and> tracked files' projectId
           \<and> progress_entry files' projectId k' = progress_entry files projectId k'"
proof (cases ev)
  case (ProbeDiagnostics chunk)
  then show ?thesis using report_progress_other_entry[OF assms, of 50] assms(1) by auto
next
  case (ProbeClosed code out dur)
  then show ?thesis using report_progress_other_entry[OF assms, of 100] assms(1)
    by (auto split: option.splits)
qed

lemma tracked_updateProjectStatus:
  assumes "tracked files projectId"
  shows "tracked (fst (updateProjectStatus files projectId status error)) projectId
       \<and> progress_entry (fst (updateProjectStatus files projectId status error)) projectId k
           = progress_entry files projectId k"
proof -
  let ?set = "[''status'' \<mapsto> Defined (JStr (status_string status)), ''error'' \<mapsto> Defined (JStr (the error))]"
  let ?clear = "[''status'' \<mapsto> Defined (JStr (status_string status)), ''error'' \<mapsto> Undefined]"
  have u: "updateProjectStatus files projectId status error =
             updateProjectMetadata files projectId (if error = None \<or> error = Some [] then ?clear else ?set)"
    by (auto simp: updateProjectStatus_def Let_def split: option.splits)
  show ?thesis
    unfolding u
    using tracked_updateProjectMetadata[of files projectId ?set k]
          tracked_updateProjectMetadata[of files projectId ?clear k] assms
    by (simp del: fun_upd_apply add: fun_upd_other)
qed

lemma downloadMedia_catch_entry:
  assumes "tracked files projectId"
  shows "tracked (fst (downloadMedia_catch files projectId e)) projectId
       \<and> progress_entry (fst (downloadMedia_catch files projectId e)) projectId k = progress_entry files projectId k"
  using tracked_updateProjectStatus[OF assms, of DOWNLOAD_ERROR "Some (message e)" k]
  by (simp add: downloadMedia_catch_def)

lemma tracked_read_metadata:
  assumes "tracked files projectId"
  shows "\<exists>metadata. read_metadata files projectId = Inr metadata"
proof -
  from assms obtain d m where
    d: "files projectId = Some d" "metadata_json d = Some (Json m)" "progress_well_typed m"
    by (rule tracked_obtain)
  then show ?thesis using read_metadata_Json[of files projectId d m] by simp
qed

lemma downloadMedia_finish_entry:
  assumes "tracked files projectId"
  shows "tracked (fst (downloadMedia_finish files projectId processId dv da t)) projectId
       \<and> progress_entry (fst (downloadMedia_finish files projectId processId dv da t)) projectId k
           = progress_entry files projectId k"
proof -
  from tracked_read_metadata[OF assms] obtain metadata where r: "read_metadata files projectId = Inr metadata"
    by blast
  let ?u = "[''status'' \<mapsto> Defined (JStr (status_string DOWNLOADED)),
             ''videoDuration'' \<mapsto> Defined (JNum dv),
             ''audioDuration'' \<mapsto> Defined (JNum da),
             ''totalDuration'' \<mapsto> Defined (JNum da),
             ''downloadCompletedAt'' \<mapsto> Defined (JStr t),
             ''downloadProcessId'' \<mapsto> Defined (JStr processId),
             ''currentProcess'' \<mapsto> Defined (JStr ''trim'')]"
  have "fst (downloadMedia_finish files projectId processId dv da t) =
          write_metadata files projectId (metadata ++ ?u)"
    using r by (simp add: downloadMedia_finish_def)
  then show ?thesis using tracked_write_metadata[of files projectId metadata ?u k] assms r by simp
qed

lemma after_probes_entry:
  assumes "tracked files projectId"
  shows "tracked (fst (after_probes projectId processId t files v a outcome)) projectId
       \<and> progress_entry (fst (after_probes projectId processId t files v a outcome)) projectId k
           = progress_entry files projectId k"
  using assms downloadMedia_catch_entry[OF assms, of _ k]
        downloadMedia_finish_entry[OF assms, of processId _ _ t k]
  by (auto simp: after_probes_def split: option.splits sum.splits)

lemma run_probes_entry:
  assumes "tracked files projectId" and "videoId \<noteq> k" and "audioId \<noteq> k"
  shows "progress_entry (fst (run_probes projectId processId videoId audioId t evs files v a outcome)) projectId k
           = progress_entry files projectId k"
  using assms(1)
proof (induction evs arbitrary: files v a outcome)
  case Nil
  then show ?case by simp
next
  case (Cons jev evs)
  obtain j ev where jev: "jev = (j, ev)" by (cases jev)
  show ?case
  proof (cases j)
    case VideoJob
    show ?thesis
    proof (cases "listening v")
      case False
      then show ?thesis using Cons.IH[OF Cons.prems, of v a outcome] jev VideoJob by simp
    next
      case True
      from on_probe_event_other_entry[OF Cons.prems assms(2), of ev v]
      obtain f1 v1 where 1: "on_probe_event projectId videoId ev files v = Inr (f1, v1)"
        "tracked f1 projectId" "progress_entry f1 projectId k = progress_entry files projectId k"
        by blast
      let ?ap = "after_probes projectId processId t f1 v1 a outcome"
      have 2: "tracked (fst ?ap) projectId" "progress_entry (fst ?ap) projectId k = progress_entry f1 projectId k"
        using after_probes_entry[OF 1(2), of processId t v1 a outcome k] by simp_all
      from Cons.IH[OF 2(1), of v1 a "snd ?ap"] show ?thesis
        using 1 2 jev VideoJob True by (simp add: split_beta)
    qed
  next
    case AudioJob
    show ?thesis
    proof (cases "listening a")
      case False
      then show ?thesis using Cons.IH[OF Cons.prems, of v a outcome] jev AudioJob by simp
    next
      case True
      from on_probe_event_other_entry[OF Cons.prems assms(3), of ev a]
      obtain f1 a1 where 1: "on_probe_event projectId audioId ev files a = Inr (f1, a1)"
        "tracked f1 projectId" "progress_entry f1 projectId k = progress_entry files projectId k"
        by blast
      let ?ap = "after_probes projectId processId t f1 v a1 outcome"
      have 2: "tracked (fst ?ap) projectId" "progress_entry (fst ?ap) projectId k = progress_entry f1 projectId k"
        using after_probes_entry[OF 1(2), of processId t v a1 outcome k] by simp_all
      from Cons.IH[OF 2(1), of v a1 "snd ?ap"] show ?thesis
        using 1 2 jev AudioJob True by (simp add: split_beta)
    qed
  qed
qed

lemma downloadMedia_probe_entry:
  assumes "tracked files projectId" and "videoDurationProcessId run \<noteq> k" and "audioDurationProcessId run \<noteq> k"
  shows "progress_entry (fst (downloadMedia_probe files projectId processId run)) projectId k
           = progress_entry files projectId k"
proof -
  let ?s1 = "start_probe files projectId (videoDurationProcessId run)"
  have 1: "tracked (fst ?s1) projectId" "progress_entry (fst ?s1) projectId k = progress_entry files projectId k"
    using start_probe_other_entry[OF assms(1,2)] by simp_all
  let ?s2 = "start_probe (fst ?s1) projectId (audioDurationProcessId run)"
  have 2: "tracked (fst ?s2) projectId" "progress_entry (fst ?s2) projectId k = progress_entry (fst ?s1) projectId k"
    using start_probe_other_entry[OF 1(1) assms(3)] by simp_all
  let ?ap = "after_probes projectId processId (downloadCompletedAt run) (fst ?s2) (snd ?s1) (snd ?s2) Waiting"
  have 3: "tracked (fst ?ap) projectId" "progress_entry (fst ?ap) projectId k = progress_entry (fst ?s2) projectId k"
    using after_probes_entry[OF 2(1), of processId "downloadCompletedAt run" "snd ?s1" "snd ?s2" Waiting k]
    by simp_all
  show ?thesis
    using run_probes_entry[OF 3(1) assms(2,3), of processId "downloadCompletedAt run" "probe_events run"
             "snd ?s1" "snd ?s2" "snd ?ap"] 1 2 3
    by (simp add: downloadMedia_probe_def split_beta)
qed

lemma downloadYouTubeVideo_other_entry:
  assumes "tracked files projectId" and "k \<noteq> k'"
  shows "tracked (fst (downloadYouTubeVideo files projectId k)) projectId
       \<and> progress_entry (fst (downloadYouTubeVideo files projectId k)) projectId k' = progress_entry files projectId k'"
  using report_progress_other_entry[OF assms, of 0] by (auto simp: downloadYouTubeVideo_def)

lemma downloadMedia_keeps_own_entry:
  assumes "tracked files projectId"
    and "videoDurationProcessId run \<noteq> processId" and "audioDurationProcessId run \<noteq> processId"
  shows "progress_entry (fst (downloadMedia files projectId processId run)) projectId processId
           = progress_entry files projectId processId"
proof (cases "not_found (ffmpeg (stage_tools run)) \<or> not_found (ffprobe (stage_tools run))")
  case True
  then show ?thesis using downloadMedia_catch_entry[OF assms(1)] by (simp add: downloadMedia_def)
next
  case False
  from assms(1) obtain d where d: "files projectId = Some d"
    by (rule tracked_obtain)
  have mk: "mkdirSync_recursive files projectId = files" using d by (rule mkdirSync_recursive_existing)
  from tracked_read_metadata[OF assms(1)] obtain metadata where r: "read_metadata files projectId = Inr metadata"
    by blast
  let ?f2 = "write_metadata files projectId (metadata(''status'' \<mapsto> Defined (JStr (status_string DOWNLOADING))))"
  have 2: "tracked ?f2 projectId" "progress_entry ?f2 projectId processId = progress_entry files projectId processId"
    using tracked_write_metadata[of files projectId metadata
            "[''status'' \<mapsto> Defined (JStr (status_string DOWNLOADING))]" processId] assms(1) r
    by simp_all
  let ?s3 = "downloadYouTubeVideo ?f2 projectId (job_processId processId VideoJob)"
  have 3: "tracked (fst ?s3) projectId" "progress_entry (fst ?s3) projectId processId = progress_entry ?f2 projectId processId"
    using downloadYouTubeVideo_other_entry[OF 2(1), of "job_processId processId VideoJob" processId] by simp_all
  let ?s4 = "downloadYouTubeVideo (fst ?s3) projectId (job_processId processId AudioJob)"
  have 4: "tracked (fst ?s4) projectId" "progress_entry (fst ?s4) projectId processId = progress_entry (fst ?s3) projectId processId"
    using downloadYouTubeVideo_other_entry[OF 3(1), of "job_processId processId AudioJob" processId] by simp_all
  from run_downloads_other_entry[OF 4(1), of processId "download_events run" "snd ?s3" "snd ?s4"]
  obtain f5 v' a' where 5: "run_downloads projectId processId (download_events run) (fst ?s4) (snd ?s3) (snd ?s4)
       = (f5, Inr (v', a'))" "tracked f5 projectId"
       "progress_entry f5 projectId processId = progress_entry (fst ?s4) projectId processId" by blast
  have "progress_entry (fst (downloadMedia files projectId processId run)) projectId processId
          = progress_entry f5 projectId processId"
    using False r mk 5(1) downloadMedia_catch_entry[OF 5(2), of _ processId]
      downloadMedia_probe_entry[OF 5(2) assms(2,3), of processId]
    by (auto simp: downloadMedia_def Let_def split_beta split: option.splits download_result.splits)
  then show ?thesis using 2 3 4 5 by simp
qed


lemma POST_download_accepted:
  assumes "req_video request \<noteq> []" and "req_audio request \<noteq> []"
  shows "\<exists>files'. POST_download files projectId request processId createdAt = (files', Accepted projectId processId)
           \<and> tracked files' projectId
           \<and> progress_entry files' projectId processId = Some (JNum 0)"
proof -
  let ?f1 = "mkdirSync_recursive files projectId"
  have "?f1 projectId \<noteq> None"
    by (cases "files projectId") (simp_all add: mkdirSync_recursive_def)
  then obtain d where d: "?f1 projectId = Some d" by blast
  let ?ob = "[''id'' \<mapsto> Defined (JStr projectId),
                ''createdAt'' \<mapsto> Defined (JStr createdAt),
                ''status'' \<mapsto> Defined (JStr (status_string INITIALIZING)),
                ''videoUrl'' \<mapsto> Defined (JStr (req_video request)),
                ''audioUrl'' \<mapsto> Defined (JStr (req_audio request)),
                ''startTime'' \<mapsto> Defined (JNum (or_zero (req_startTime request))),
                ''endTime'' \<mapsto> Defined (JNum (or_zero (req_endTime request))),
                ''audioStartTime'' \<mapsto> Defined (JNum (or_zero (req_audioStartTime request))),
                ''audioEndTime'' \<mapsto> Defined (JNum (or_zero (req_audioEndTime request))),
                ''currentProcess'' \<mapsto> Defined (JStr ''download''),
                ''downloadProcessId'' \<mapsto> Defined (JStr processId)]"
  let ?f2 = "write_metadata ?f1 projectId ?ob"
  have t: "tracked ?f2 projectId"
    using d by (simp add: tracked_def project_record_def write_metadata_def progress_well_typed_def
                  JSON_stringify_def)
  from tracked_updateProjectProgress[OF t, of processId 0]
  obtain f3 where 3: "updateProjectProgress ?f2 projectId processId 0 = Inr (f3, True)"
    "tracked f3 projectId" "progress_entry f3 projectId processId = Some (JNum 0)" by blast
  show ?thesis using assms 3 by (simp add: POST_download_def Let_def)
qed

lemma download_stage_keeps_0:
  assumes "req_video request \<noteq> []" and "req_audio request \<noteq> []"
    and "videoDurationProcessId run \<noteq> processId" and "audioDurationProcessId run \<noteq> processId"
  shows "progress_entry
           (fst (downloadMedia (fst (POST_download files projectId request processId createdAt))
                   projectId processId run))
           projectId processId = Some (JNum 0)"
proof -
  from POST_download_accepted[OF assms(1,2), of files projectId processId createdAt]
  obtain f where f: "POST_download files projectId request processId createdAt = (f, Accepted projectId processId)"
    "tracked f projectId" "progress_entry f projectId processId = Some (JNum 0)" by blast
  show ?thesis
    using downloadMedia_keeps_own_entry[OF f(2) assms(3,4)] f(1,3) by simp
qed

text \<open>
  C9. The claim asks that the last progress value written for a process identifier
  whose work has completed is exactly 100. The download stage does not do that for its
  own identifier. In the run below the route accepts a request for the new project
  \<^verbatim>\<open>p1\<close> and initialises the progress of the stage's identifier \<^verbatim>\<open>d1\<close> with 0; both
  download jobs and both probes succeed, and the stage records the status
  \<^verbatim>\<open>downloaded\<close>. The two jobs have ended at 100; the entry of \<^verbatim>\<open>d1\<close> is still 0. The
  merge and split stages end with \<^verbatim>\<open>updateProjectProgress(projectId, processId, 100)\<close>.
\<close>

theorem download_stage_progress_stays_0:
  "snd (downloadMedia started_download ''p1'' ''d1'' good_stage_run) = Completed
   \<and> record_field (fst (downloadMedia started_download ''p1'' ''d1'' good_stage_run)) ''p1'' ''status''
        = Some (JStr ''downloaded'')
   \<and> record_field (fst (downloadMedia started_download ''p1'' ''d1'' good_stage_run)) ''p1'' ''downloadProcessId''
        = Some (JStr ''d1'')
   \<and> progress_entry (fst (downloadMedia started_download ''p1'' ''d1'' good_stage_run)) ''p1'' ''d1_video''
        = Some (JNum 100)
   \<and> progress_entry (fst (downloadMedia started_download ''p1'' ''d1'' good_stage_run)) ''p1'' ''d1_audio''
        = Some (JNum 100)
   \<and> progress_entry (fst (downloadMedia started_download ''p1'' ''d1'' good_stage_run)) ''p1'' ''d1''
        = Some (JNum 0)"
  by (simp add: downloadMedia_def downloadMedia_probe_def downloadMedia_finish_def after_probes_def
       start_probe_def downloadYouTubeVideo_def resolve_def settle_def output_file_def
       good_stage_run_def example_tools_def not_found_def
       started_download_def POST_download_def example_request_def store_defs Let_def or_zero_def)


end
